theory Spec2Isabelle
  imports Complex_Main "HOL-Library.Sublist"
begin

section \<open>Retry with exponential backoff (\<open>withRetry\<close>)\<close>

text \<open>
  \<open>geminiService.ts\<close>, \<open>RETRY_CONFIG\<close> and \<open>GeminiService.withRetry\<close>.  The wrapped
  operation \<open>fn\<close> is an effectful thunk: it is modelled as a step on an explicit state
  \<open>'s\<close> (whatever the operation reads and changes between two invocations) that either
  returns a value (\<open>Inr\<close>) or throws (\<open>Inl\<close>).  A thrown value carries its
  \<open>message\<close> property, \<open>None\<close> when the thrown value has no string message (reading
  \<open>error.message.includes\<close> then raises a \<open>TypeError\<close> inside the handler), and an
  identity \<open>ident\<close> that distinguishes error objects.
\<close>

record 'e thrown =
  message :: "string option"
  ident :: 'e

datatype 'e failure = Rethrown "'e thrown" | HandlerTypeError

definition maxRetries :: nat where "maxRetries = 3"
definition initialDelay :: nat where "initialDelay = 1000"
definition maxDelay :: nat where "maxDelay = 8000"

text \<open>\<open>String.prototype.includes\<close>: the argument occurs as a contiguous substring.\<close>

definition str_includes :: "string \<Rightarrow> string \<Rightarrow> bool" where
  "str_includes s sub = sublist sub s"

text \<open>What one run of \<open>withRetry\<close> did: its outcome, the state of the operation afterwards,
  how many times \<open>fn\<close> was invoked, and the delays slept (in order, milliseconds).\<close>

record ('e, 'a, 's) retry_run =
  outcome :: "'e failure + 'a"
  final :: 's
  invocations :: nat
  sleeps :: "nat list"

text \<open>The \<open>while (true)\<close> loop, with the loop variables \<open>retries\<close> and \<open>delay\<close> and the
  two observation counters as arguments.  The handler increments \<open>retries\<close> first and
  rethrows once it exceeds \<open>maxRetries\<close>; only then is the message inspected.\<close>

function withRetry_loop ::
  "('s \<Rightarrow> ('e thrown + 'a) \<times> 's) \<Rightarrow> 's \<Rightarrow> nat \<Rightarrow> nat \<Rightarrow> nat \<Rightarrow> nat list
     \<Rightarrow> ('e, 'a, 's) retry_run" where
  "withRetry_loop fn s retries delay calls slept =
     (case fn s of
        (Inr v, s') \<Rightarrow>
          \<lparr>outcome = Inr v, final = s', invocations = Suc calls, sleeps = slept\<rparr>
      | (Inl err, s') \<Rightarrow>
          (let retries' = Suc retries in
           if retries' > maxRetries then
             \<lparr>outcome = Inl (Rethrown err), final = s', invocations = Suc calls, sleeps = slept\<rparr>
           else (case message err of
              None \<Rightarrow>
                \<lparr>outcome = Inl HandlerTypeError, final = s', invocations = Suc calls,
                 sleeps = slept\<rparr>
            | Some m \<Rightarrow>
                if \<not> (str_includes m ''rate limit'' \<or> str_includes m ''timeout'') then
                  \<lparr>outcome = Inl (Rethrown err), final = s', invocations = Suc calls,
                   sleeps = slept\<rparr>
                else withRetry_loop fn s' retries' (min (delay * 2) maxDelay) (Suc calls)
                       (slept @ [delay]))))"
  by pat_completeness auto
termination
  by (relation "measure (\<lambda>(fn, s, retries, delay, calls, slept). Suc maxRetries - retries)")
     (auto simp: maxRetries_def)

definition withRetry :: "('s \<Rightarrow> ('e thrown + 'a) \<times> 's) \<Rightarrow> 's \<Rightarrow> ('e, 'a, 's) retry_run" where
  "withRetry fn s = withRetry_loop fn s 0 initialDelay 0 []"

text \<open>Two sample operations whose state counts the invocations made so far: \<open>flaky\<close>
  throws \<open>Error("rate limit exceeded")\<close> on its first two invocations and then returns
  \<open>"ok"\<close>; \<open>denied\<close> always throws \<open>Error("permission denied")\<close>.\<close>

definition flaky :: "nat \<Rightarrow> (nat thrown + string) \<times> nat" where
  "flaky n =
     (if n < 2 then Inl \<lparr>message = Some ''rate limit exceeded'', ident = n\<rparr> else Inr ''ok'',
      Suc n)"

definition denied :: "nat \<Rightarrow> (nat thrown + string) \<times> nat" where
  "denied n = (Inl \<lparr>message = Some ''permission denied'', ident = n\<rparr>, Suc n)"

section \<open>JavaScript values read from JSON\<close>

text \<open>
  The value \<open>JSON.parse\<close> returns.  An object is the list of its members in the order of
  the text; a later member with the same key replaces an earlier one.  A number is the
  exact value of its literal (rounding to a double is not modelled: the normaliser and the
  evaluator only test numbers for zero and for equality).  Strings are lists of
  characters, one per code unit; white space, letter case and word characters are those
  of the ASCII range.  A property that is absent reads as \<open>undefined\<close>, which is \<open>None\<close>
  of an option.
\<close>

datatype json =
    JNull
  | JBool bool
  | JNum rat
  | JStr string
  | JArr "json list"
  | JObj "(string \<times> json) list"

text \<open>What a step can throw.  \<open>PatternOutsideModel\<close> is no error of the program: it
  marks a regular expression that the model of patterns below does not cover, and is
  shown not to arise (\<open>literal_of_escaped\<close>).\<close>

datatype js_error =
    TypeError
  | NoJsonFound
  | MalformedJson
  | MissingNodes
  | PatternOutsideModel

text \<open>Decimal rendering of an index, as in the template \<open>`node${index}`\<close>; \<open>digit_char\<close>
  is only applied to numbers below ten.\<close>

definition digit_char :: "nat \<Rightarrow> char" where
  "digit_char d = ''0123456789'' ! d"

function showNat :: "nat \<Rightarrow> string" where
  "showNat n = (if n < 10 then [digit_char n] else showNat (n div 10) @ [digit_char (n mod 10)])"
  by pat_completeness auto
termination
  by (relation "measure (\<lambda>n. n)") auto

declare showNat.simps [simp del]

text \<open>Own properties.  Arrays and strings have their indices and \<open>length\<close>; numbers and
  booleans have none.  Reading a property of \<open>null\<close> throws: each reader below tests for
  \<open>null\<close> first.  Properties inherited from the prototypes (\<open>constructor\<close>,
  \<open>toString\<close>, \<open>__proto__\<close> and the like) are not modelled: none of the names the
  normaliser and the scorer read is one, and the matcher is modelled for entities whose
  keys are none of them.\<close>

definition index_of :: "string \<Rightarrow> nat \<Rightarrow> nat option" where
  "index_of k n = find (\<lambda>i. showNat i = k) [0..<n]"

fun own_prop :: "json \<Rightarrow> string \<Rightarrow> json option" where
  "own_prop (JObj kvs) k = map_of (rev kvs) k"
| "own_prop (JArr xs) k =
     (if k = ''length'' then Some (JNum (of_nat (length xs)))
      else (case index_of k (length xs) of Some i \<Rightarrow> Some (xs ! i) | None \<Rightarrow> None))"
| "own_prop (JStr s) k =
     (if k = ''length'' then Some (JNum (of_nat (length s)))
      else (case index_of k (length s) of Some i \<Rightarrow> Some (JStr [s ! i]) | None \<Rightarrow> None))"
| "own_prop _ k = None"

text \<open>Truthiness, and \<open>a || b\<close> on possibly undefined operands.\<close>

fun truthy :: "json \<Rightarrow> bool" where
  "truthy JNull = False"
| "truthy (JBool b) = b"
| "truthy (JNum q) = (q \<noteq> 0)"
| "truthy (JStr s) = (s \<noteq> [])"
| "truthy (JArr xs) = True"
| "truthy (JObj kvs) = True"

fun truthy_opt :: "json option \<Rightarrow> bool" where
  "truthy_opt None = False"
| "truthy_opt (Some v) = truthy v"

definition js_or :: "json option \<Rightarrow> json option \<Rightarrow> json option" where
  "js_or a b = (if truthy_opt a then a else b)"

text \<open>\<open>a || d\<close> with a default \<open>d\<close> that is a value.\<close>

definition or_else :: "json option \<Rightarrow> json \<Rightarrow> json" where
  "or_else a d = (case a of Some v \<Rightarrow> if truthy v then v else d | None \<Rightarrow> d)"

text \<open>White space (\<open>\s\<close>, and what \<open>trim\<close> strips), on the ASCII range: tab, line feed,
  vertical tab, form feed, carriage return and space.\<close>

definition is_space :: "char \<Rightarrow> bool" where
  "is_space c = (c \<in> set [CHR 0x09, CHR 0x0A, CHR 0x0B, CHR 0x0C, CHR 0x0D, CHR '' ''])"

definition trim :: "string \<Rightarrow> string" where
  "trim s = rev (dropWhile is_space (rev (dropWhile is_space s)))"

text \<open>Mapping a function that may throw over an array: the first throw ends the map.\<close>

fun mapE :: "('a \<Rightarrow> js_error + 'b) \<Rightarrow> 'a list \<Rightarrow> js_error + 'b list" where
  "mapE f [] = Inr []"
| "mapE f (x # xs) =
     (case f x of
        Inl e \<Rightarrow> Inl e
      | Inr y \<Rightarrow> (case mapE f xs of Inl e \<Rightarrow> Inl e | Inr ys \<Rightarrow> Inr (y # ys)))"

text \<open>\<open>Set.prototype.has\<close> on a set built from the list \<open>ids\<close>.  Primitive values are
  compared by value; an array or object only equals itself by identity, and the values
  looked up here are parts of the parsed tree other than the stored ones, so such a look-up
  fails.\<close>

fun is_primitive :: "json \<Rightarrow> bool" where
  "is_primitive (JArr xs) = False"
| "is_primitive (JObj kvs) = False"
| "is_primitive _ = True"

definition set_has :: "json list \<Rightarrow> json \<Rightarrow> bool" where
  "set_has ids v = (is_primitive v \<and> v \<in> set ids)"

section \<open>Diagram normalisation (\<open>generateSystemDiagram\<close>)\<close>

text \<open>
  The canonical diagram of \<open>types\<close>: \<open>DiagramNode\<close>, \<open>DiagramEdge\<close>,
  \<open>DiagramGroup\<close>, \<open>DiagramData\<close>.  The response is untyped at run time, so a field
  holds whatever JavaScript value the normaliser stored; an optional field that is absent
  or \<open>undefined\<close> is \<open>None\<close>.  A \<open>style\<close> is either the value found in the response or
  the object the normaliser builds from the flat style properties.
\<close>

datatype node_style = NodeStyleGiven json | NodeStyleBuilt "json option" "json option"

datatype edge_style =
    EdgeStyleGiven json
  | EdgeStyleBuilt "json option" "json option" "json option" "json option"

datatype group_style = GroupStyleGiven json | GroupStyleBuilt "json option"

record diagram_node =
  nid :: json
  nlabel :: json
  ntype :: json
  nrole :: "json option"
  ncategory :: "json option"
  ndescription :: "json option"
  nsize :: "json option"
  nstyle :: "node_style option"

record diagram_edge =
  eid :: json
  source :: json
  target :: json
  elabel :: json
  etype :: json
  estyle :: edge_style

record diagram_group =
  gid :: json
  glabel :: json
  gnodes :: json
  gstyle :: group_style

record diagram_data =
  nodes :: "diagram_node list"
  edges :: "diagram_edge list"
  layout :: json
  groups :: "diagram_group list option"

text \<open>The fields of the input \<open>Agent\<close>s that the normaliser reads.\<close>

record agent =
  agent_id :: string
  agent_name :: string
  agent_description :: string

text \<open>One element of the node array, with its index (the callback of \<open>nodeData.map\<close>).\<close>

definition normalize_node :: "json \<Rightarrow> nat \<Rightarrow> js_error + diagram_node" where
  "normalize_node node index =
     (if node = JNull then Inl TypeError
      else Inr
        \<lparr>nid = or_else (own_prop node ''id'') (JStr (''node'' @ showNat index)),
         nlabel = or_else (js_or (own_prop node ''label'') (own_prop node ''name''))
                    (JStr (''Node '' @ showNat index)),
         ntype = or_else (own_prop node ''type'') (JStr ''agent''),
         nrole = own_prop node ''role'',
         ncategory = own_prop node ''category'',
         ndescription = own_prop node ''description'',
         nsize = Some (or_else (own_prop node ''size'') (JNum 1)),
         nstyle = Some (case own_prop node ''style'' of
                     Some v \<Rightarrow>
                       if truthy v then NodeStyleGiven v
                       else NodeStyleBuilt (own_prop node ''shape'') (own_prop node ''color'')
                   | None \<Rightarrow> NodeStyleBuilt (own_prop node ''shape'') (own_prop node ''color''))\<rparr>)"

text \<open>A basic node made from an input agent.\<close>

definition agent_node :: "agent \<Rightarrow> diagram_node" where
  "agent_node a =
     \<lparr>nid = JStr (agent_id a), nlabel = JStr (agent_name a), ntype = JStr ''agent'',
      nrole = None, ncategory = None, ndescription = Some (JStr (agent_description a)),
      nsize = None, nstyle = None\<rparr>"

text \<open>The node step: a non-empty array is mapped; anything else falls back to the input
  agents, and fails when that yields no node.\<close>

definition normalize_nodes :: "json option \<Rightarrow> agent list \<Rightarrow> js_error + diagram_node list" where
  "normalize_nodes nodeData agents =
     (case nodeData of
        Some (JArr xs) \<Rightarrow>
          if length xs > 0 then mapE (\<lambda>(node, index). normalize_node node index)
                                 (zip xs [0..<length xs])
          else (let ns = map agent_node agents in
                if length ns = 0 then Inl MissingNodes else Inr ns)
      | _ \<Rightarrow> (let ns = map agent_node agents in
              if length ns = 0 then Inl MissingNodes else Inr ns))"

text \<open>One element of the edge array, with its index (the callback of \<open>edgeData.map\<close>).\<close>

definition normalize_edge :: "json \<Rightarrow> nat \<Rightarrow> js_error + diagram_edge" where
  "normalize_edge edge index =
     (if edge = JNull then Inl TypeError
      else Inr
        \<lparr>eid = or_else (own_prop edge ''id'') (JStr (''edge'' @ showNat index)),
         source = or_else (js_or (js_or (own_prop edge ''source'') (own_prop edge ''from''))
                            (own_prop edge ''source_id'')) (JStr ''''),
         target = or_else (js_or (js_or (own_prop edge ''target'') (own_prop edge ''to''))
                            (own_prop edge ''target_id'')) (JStr ''''),
         elabel = or_else (own_prop edge ''label'') (JStr ''''),
         etype = or_else (own_prop edge ''type'') (JStr ''sequential''),
         estyle = (case own_prop edge ''style'' of
                     Some v \<Rightarrow>
                       if truthy v then EdgeStyleGiven v
                       else EdgeStyleBuilt (own_prop edge ''lineStyle'')
                              (own_prop edge ''thickness'') (own_prop edge ''color'')
                              (own_prop edge ''bidirectional'')
                   | None \<Rightarrow> EdgeStyleBuilt (own_prop edge ''lineStyle'')
                              (own_prop edge ''thickness'') (own_prop edge ''color'')
                              (own_prop edge ''bidirectional''))\<rparr>)"

text \<open>The filter on the mapped edges: both end points must be ids of normalised nodes.\<close>

definition edge_exists :: "json list \<Rightarrow> diagram_edge \<Rightarrow> bool" where
  "edge_exists nodeIds edge = (set_has nodeIds (source edge) \<and> set_has nodeIds (target edge))"

definition normalize_edges :: "json option \<Rightarrow> diagram_node list \<Rightarrow> js_error + diagram_edge list" where
  "normalize_edges edgeData ns =
     (case edgeData of
        Some (JArr xs) \<Rightarrow>
          (case mapE (\<lambda>(edge, index). normalize_edge edge index) (zip xs [0..<length xs]) of
             Inl e \<Rightarrow> Inl e
           | Inr es \<Rightarrow> Inr (filter (edge_exists (map nid ns)) es))
      | _ \<Rightarrow> Inr [])"

definition normalize_group :: "json \<Rightarrow> nat \<Rightarrow> js_error + diagram_group" where
  "normalize_group grp index =
     (if grp = JNull then Inl TypeError
      else Inr
        \<lparr>gid = or_else (own_prop grp ''id'') (JStr (''group'' @ showNat index)),
         glabel = or_else (js_or (own_prop grp ''label'') (own_prop grp ''name''))
                    (JStr (''Group '' @ showNat index)),
         gnodes = or_else (js_or (own_prop grp ''nodes'') (own_prop grp ''nodeIds'')) (JArr []),
         gstyle = (case own_prop grp ''style'' of
                     Some v \<Rightarrow>
                       if truthy v then GroupStyleGiven v
                       else GroupStyleBuilt (own_prop grp ''color'')
                   | None \<Rightarrow> GroupStyleBuilt (own_prop grp ''color''))\<rparr>)"

definition normalize_groups :: "json option \<Rightarrow> js_error + diagram_group list option" where
  "normalize_groups groupData =
     (case groupData of
        Some (JArr xs) \<Rightarrow>
          (case mapE (\<lambda>(grp, index). normalize_group grp index) (zip xs [0..<length xs]) of
             Inl e \<Rightarrow> Inl e
           | Inr gs \<Rightarrow> Inr (Some gs))
      | _ \<Rightarrow> Inr None)"

text \<open>The layout: a string that is not blank is taken as it is; otherwise the initial
  value \<open>jsonResponse.layout || 'dagre'\<close> stands.\<close>

definition normalize_layout :: "json option \<Rightarrow> json" where
  "normalize_layout l =
     (let initial = or_else l (JStr ''dagre'') in
      case l of
        Some (JStr s) \<Rightarrow>
          if trim s \<noteq> [] then JStr s
          else if \<not> truthy initial then JStr ''dagre'' else initial
      | _ \<Rightarrow> if \<not> truthy initial then JStr ''dagre'' else initial)"

text \<open>The normalisation of a parsed response, from \<open>Object.keys(jsonResponse)\<close> (which
  throws on \<open>null\<close>) to \<open>return normalizedResponse\<close>.\<close>

definition normalize_diagram :: "json \<Rightarrow> agent list \<Rightarrow> js_error + diagram_data" where
  "normalize_diagram jsonResponse agents =
     (if jsonResponse = JNull then Inl TypeError
      else
        let nodeData = js_or (js_or (js_or (own_prop jsonResponse ''nodes'')
                                 (own_prop jsonResponse ''vertices''))
                           (own_prop jsonResponse ''agents'')) (Some (JArr []));
            edgeData = js_or (js_or (js_or (own_prop jsonResponse ''edges'')
                                 (own_prop jsonResponse ''links''))
                           (own_prop jsonResponse ''relationships'')) (Some (JArr []))
        in (case normalize_nodes nodeData agents of
              Inl e \<Rightarrow> Inl e
            | Inr ns \<Rightarrow>
               (case normalize_edges edgeData ns of
                  Inl e \<Rightarrow> Inl e
                | Inr es \<Rightarrow>
                   (case normalize_groups (own_prop jsonResponse ''groups'') of
                      Inl e \<Rightarrow> Inl e
                    | Inr gs \<Rightarrow>
                       Inr \<lparr>nodes = ns, edges = es,
                            layout = normalize_layout (own_prop jsonResponse ''layout''),
                            groups = gs\<rparr>))))"


text \<open>Two parsed responses: the scenario
  \<open>{"vertices":[{"id":"n1","name":"X"}],"links":[{"from":"n1","to":"n2"}]}\<close>, and a
  response with two nodes, one edge between them and one edge to an unknown node.\<close>

definition vertices_links_response :: json where
  "vertices_links_response =
     JObj [(''vertices'', JArr [JObj [(''id'', JStr ''n1''), (''name'', JStr ''X'')]]),
           (''links'', JArr [JObj [(''from'', JStr ''n1''), (''to'', JStr ''n2'')]])]"

definition two_edges_response :: json where
  "two_edges_response =
     JObj [(''nodes'', JArr [JObj [(''id'', JStr ''a'')], JObj [(''id'', JStr ''b'')]]),
           (''edges'', JArr [JObj [(''source'', JStr ''a''), (''target'', JStr ''b'')],
                            JObj [(''source'', JStr ''a''), (''target'', JStr ''zzz'')]])]"

section \<open>JavaScript numbers and string matching used by the scorer\<close>

text \<open>
  A number is \<open>NaN\<close> or a value.  Values are exact rationals: the rounding of
  intermediate results to binary floating point is not modelled, and magnitudes beyond
  the range of a double stay finite.  \<open>Math.min\<close> and \<open>+\<close> propagate \<open>NaN\<close>; a
  comparison with \<open>NaN\<close> is false; \<open>Math.round\<close> rounds half up.
\<close>

datatype js_number = NaN | Fin rat

fun math_min :: "js_number \<Rightarrow> js_number \<Rightarrow> js_number" where
  "math_min (Fin a) (Fin b) = Fin (min a b)"
| "math_min _ _ = NaN"

fun num_add :: "js_number \<Rightarrow> js_number \<Rightarrow> js_number" where
  "num_add (Fin a) (Fin b) = Fin (a + b)"
| "num_add _ _ = NaN"

text \<open>Division by a constant divisor that is not zero.\<close>

fun num_div_by :: "js_number \<Rightarrow> rat \<Rightarrow> js_number" where
  "num_div_by (Fin a) d = Fin (a / d)"
| "num_div_by NaN d = NaN"

fun num_gt :: "js_number \<Rightarrow> rat \<Rightarrow> bool" where
  "num_gt (Fin a) b = (a > b)"
| "num_gt NaN b = False"

definition round_half_up :: "rat \<Rightarrow> int" where
  "round_half_up q = \<lfloor>q + 1 / 2\<rfloor>"

fun math_round :: "js_number \<Rightarrow> js_number" where
  "math_round (Fin a) = Fin (of_int (round_half_up a))"
| "math_round NaN = NaN"

text \<open>\<open>ToNumber\<close> of a value that was read from a property.  On numbers, booleans,
  \<open>null\<close> and \<open>undefined\<close> it is fixed.  On strings, arrays and objects it is the
  parameter \<open>coerce\<close>: the string-to-number grammar and the conversion of an object to a
  primitive are not modelled.  \<open>coerce v = None\<close> where that conversion throws a
  \<open>TypeError\<close> (an object whose own \<open>toString\<close> and \<open>valueOf\<close> are no functions).\<close>

type_synonym coercion = "json \<Rightarrow> js_number option"

fun to_number :: "coercion \<Rightarrow> json option \<Rightarrow> js_error + js_number" where
  "to_number coerce None = Inr NaN"
| "to_number coerce (Some (JNum q)) = Inr (Fin q)"
| "to_number coerce (Some JNull) = Inr (Fin 0)"
| "to_number coerce (Some (JBool b)) = Inr (Fin (if b then 1 else 0))"
| "to_number coerce (Some v) = (case coerce v of Some n \<Rightarrow> Inr n | None \<Rightarrow> Inl TypeError)"

text \<open>\<open>x.length\<close> as a number, for a value \<open>x\<close> that is not \<open>null\<close>.\<close>

definition length_number :: "coercion \<Rightarrow> json \<Rightarrow> js_error + js_number" where
  "length_number coerce x = to_number coerce (own_prop x ''length'')"

text \<open>\<open>field && field.length > bound\<close> as a condition.\<close>

definition length_exceeds :: "coercion \<Rightarrow> json option \<Rightarrow> rat \<Rightarrow> js_error + bool" where
  "length_exceeds coerce field bound =
     (case field of
        Some v \<Rightarrow>
          if truthy v then
            (case length_number coerce v of Inl e \<Rightarrow> Inl e | Inr n \<Rightarrow> Inr (num_gt n bound))
          else Inr False
      | None \<Rightarrow> Inr False)"

text \<open>\<open>v || 0\<close> on a number: \<open>NaN\<close> and zero are falsy.\<close>

fun or_zero :: "js_number \<Rightarrow> rat" where
  "or_zero NaN = 0"
| "or_zero (Fin q) = (if q \<noteq> 0 then q else 0)"

text \<open>Letters of the ASCII range, for \<open>toLowerCase\<close> and for the canonicalisation that the
  \<open>i\<close> flag of a regular expression applies to both sides of a comparison.\<close>

definition lower_letters :: string where "lower_letters = ''abcdefghijklmnopqrstuvwxyz''"
definition upper_letters :: string where "upper_letters = ''ABCDEFGHIJKLMNOPQRSTUVWXYZ''"

definition canonicalize :: "char \<Rightarrow> char" where
  "canonicalize c = (case map_of (zip lower_letters upper_letters) c of Some u \<Rightarrow> u | None \<Rightarrow> c)"

definition char_toLower :: "char \<Rightarrow> char" where
  "char_toLower c = (case map_of (zip upper_letters lower_letters) c of Some l \<Rightarrow> l | None \<Rightarrow> c)"

definition toLowerCase :: "string \<Rightarrow> string" where
  "toLowerCase s = map char_toLower s"

text \<open>The replacement \<open>name.replace(/[-\/\\^$*+?.()|[\]{}]/g, '\\$&')\<close>: every character of
  the class gets a backslash in front.\<close>

definition backslash :: char where "backslash = CHR 0x5C"

definition escaped_class :: "char list" where
  "escaped_class = [CHR ''-'', CHR ''/'', backslash, CHR ''^'', CHR ''$'', CHR ''*'', CHR ''+'',
     CHR ''?'', CHR ''.'', CHR ''('', CHR '')'', CHR ''|'', CHR ''['', CHR '']'', CHR ''{'',
     CHR ''}'']"

definition escapeRegExp :: "string \<Rightarrow> string" where
  "escapeRegExp s = concat (map (\<lambda>c. if c \<in> set escaped_class then [backslash, c] else [c]) s)"

text \<open>\<open>new RegExp(pattern, 'gi')\<close> for the patterns that arise here.  The syntax characters
  of a pattern are \<open>^ $ \ . * + ? ( ) [ ] { } |\<close>.  A pattern in which each of them only
  occurs behind a backslash, and every backslash stands before a character of the escaped
  class, denotes the literal string it spells; \<open>literal_of_pattern\<close> returns it, and
  \<open>None\<close> for any other pattern.\<close>

definition syntax_characters :: "char list" where
  "syntax_characters = [CHR ''^'', CHR ''$'', backslash, CHR ''.'', CHR ''*'', CHR ''+'',
     CHR ''?'', CHR ''('', CHR '')'', CHR ''['', CHR '']'', CHR ''{'', CHR ''}'', CHR ''|'']"

fun literal_of_pattern :: "string \<Rightarrow> string option" where
  "literal_of_pattern [] = Some []"
| "literal_of_pattern [c] = (if c \<in> set syntax_characters then None else Some [c])"
| "literal_of_pattern (c # d # cs) =
     (if c = backslash then
        (if d \<in> set escaped_class then map_option (Cons d) (literal_of_pattern cs) else None)
      else if c \<in> set syntax_characters then None
      else map_option (Cons c) (literal_of_pattern (d # cs)))"

text \<open>The literal matches at the start of \<open>s\<close>, ignoring case.\<close>

definition matches_here :: "string \<Rightarrow> string \<Rightarrow> bool" where
  "matches_here lit s = prefix (map canonicalize lit) (map canonicalize s)"

text \<open>\<open>s.match(re)\<close> with the \<open>g\<close> flag returns all matches found from left to right, each
  search starting where the previous match ended (one further after an empty match);
  \<open>count_matches\<close> is the length of that array, \<open>0\<close> when \<open>match\<close> returns \<open>null\<close>.\<close>

function count_matches :: "string \<Rightarrow> string \<Rightarrow> nat" where
  "count_matches lit s =
     (if matches_here lit s then
        (if lit = [] then (case s of [] \<Rightarrow> 1 | c # cs \<Rightarrow> Suc (count_matches lit cs))
         else Suc (count_matches lit (drop (length lit) s)))
      else (case s of [] \<Rightarrow> 0 | c # cs \<Rightarrow> count_matches lit cs))"
  by pat_completeness auto
termination
proof (relation "measure (\<lambda>(lit, s). length s)")
  show "wf (measure (\<lambda>(lit, s). length s))" by simp
next
  fix lit s :: string and c cs
  assume "matches_here lit s" and "lit = []" and "s = c # cs"
  then show "((lit, cs), (lit, s)) \<in> measure (\<lambda>(lit, s). length s)" by simp
next
  fix lit s :: string
  assume m: "matches_here lit s" and ne: "lit \<noteq> []"
  from m have "length (map canonicalize lit) \<le> length (map canonicalize s)"
    unfolding matches_here_def by (rule prefix_length_le)
  with ne have "length s - length lit < length s" by (cases lit) auto
  then show "((lit, drop (length lit) s), (lit, s)) \<in> measure (\<lambda>(lit, s). length s)" by simp
next
  fix lit s :: string and c cs
  assume "\<not> matches_here lit s" and "s = c # cs"
  then show "((lit, cs), (lit, s)) \<in> measure (\<lambda>(lit, s). length s)" by simp
qed

declare count_matches.simps [simp del]

text \<open>The number of elements of
  \<open>text.match(new RegExp(escapeRegExp(name), 'gi')) || []\<close>.\<close>

definition mention_count :: "string \<Rightarrow> string \<Rightarrow> nat option" where
  "mention_count name txt =
     map_option (\<lambda>lit. count_matches lit txt) (literal_of_pattern (escapeRegExp name))"

text \<open>\<open>/#+\s+\w+/gm.test(s)\<close>: somewhere in \<open>s\<close> a \<open>#\<close> is followed by one or more white
  space characters and then a word character.\<close>

definition is_word_char :: "char \<Rightarrow> bool" where
  "is_word_char c =
     (c \<in> set lower_letters \<or> c \<in> set upper_letters \<or> c \<in> set ''0123456789'' \<or> c = CHR ''_'')"

fun hasSections :: "string \<Rightarrow> bool" where
  "hasSections [] = False"
| "hasSections (c # cs) =
     ((c = CHR ''#'' \<and> takeWhile is_space cs \<noteq> []
        \<and> (case dropWhile is_space cs of [] \<Rightarrow> False | d # ds \<Rightarrow> is_word_char d))
      \<or> hasSections cs)"

section \<open>Confidence scoring (\<open>calculateConfidenceScores\<close>)\<close>

text \<open>
  The components are the parsed model output, of type \<open>any\<close>.  Each scored entity is the
  spread \<open>{...entity, confidence}\<close>: the entity with the computed confidence.  After a
  step, \<open>result.agents\<close> (likewise \<open>tools\<close>, \<open>relationships\<close>) is the array of scored
  entities, or still the falsy value it was, which is \<open>None\<close> here.
\<close>

record scored =
  entity :: json
  confidence :: js_number

record system_confidence =
  overall :: int
  completeness :: int
  consistency :: int
  clarity :: int

record scored_components =
  result_agents :: "scored list option"
  result_tools :: "scored list option"
  result_relationships :: "scored list option"
  result_orchestrationPattern :: "json option"
  systemConfidence :: system_confidence

definition baseline :: rat where "baseline = 70"

text \<open>The callback of \<open>result.agents.map\<close>, in the order of its statements: the detail
  score, the mention score, the role score.  Reading a property of \<open>null\<close> throws; so does
  \<open>agent.name.replace\<close> unless the name is a string.\<close>

definition detailScore :: "coercion \<Rightarrow> json \<Rightarrow> js_error + js_number" where
  "detailScore coerce agent =
     (case own_prop agent ''description'' of
        Some d \<Rightarrow>
          if truthy d then
            (case length_number coerce d of
               Inl e \<Rightarrow> Inl e
             | Inr n \<Rightarrow> Inr (math_min (Fin 15) (num_div_by n 20)))
          else Inr (Fin 0)
      | None \<Rightarrow> Inr (Fin 0))"

definition agent_confidence :: "coercion \<Rightarrow> string \<Rightarrow> json \<Rightarrow> js_error + js_number" where
  "agent_confidence coerce systemDescription agent =
     (if agent = JNull then Inl TypeError
      else (case detailScore coerce agent of
          Inl e \<Rightarrow> Inl e
        | Inr detail \<Rightarrow>
           (case own_prop agent ''name'' of
              Some (JStr name) \<Rightarrow>
                (case mention_count name systemDescription of
                   None \<Rightarrow> Inl PatternOutsideModel
                 | Some mentionCount \<Rightarrow>
                    (case length_exceeds coerce (own_prop agent ''role'') 10 of
                       Inl e \<Rightarrow> Inl e
                     | Inr long_role \<Rightarrow>
                         let mentionScore = min 10 (of_nat mentionCount * 2);
                             roleScore = (if long_role then 10 else 0)
                         in Inr (math_min (Fin 100)
                              (math_round
                                 (num_add (num_add (num_add (Fin baseline) detail)
                                    (Fin mentionScore)) (Fin roleScore))))))
            | _ \<Rightarrow> Inl TypeError)))"

definition score_agent :: "coercion \<Rightarrow> string \<Rightarrow> json \<Rightarrow> js_error + scored" where
  "score_agent coerce systemDescription agent =
     (case agent_confidence coerce systemDescription agent of
        Inl e \<Rightarrow> Inl e
      | Inr c \<Rightarrow> Inr \<lparr>entity = agent, confidence = c\<rparr>)"

text \<open>The callback of \<open>result.tools.map\<close>.  \<open>tool.name.length\<close> throws when the name is
  \<open>undefined\<close> or \<open>null\<close>, \<open>tool.name.toLowerCase()\<close> when it is any other value that is
  not a string; whatever is evaluated in between, the callback ends in a \<open>TypeError\<close>
  then.\<close>

definition tool_confidence :: "coercion \<Rightarrow> string \<Rightarrow> json \<Rightarrow> js_error + js_number" where
  "tool_confidence coerce systemDescription tool =
     (if tool = JNull then Inl TypeError
      else (case own_prop tool ''name'' of
          Some (JStr name) \<Rightarrow>
            (case length_exceeds coerce (own_prop tool ''purpose'') 15 of
               Inl e \<Rightarrow> Inl e
             | Inr clear_purpose \<Rightarrow>
                 let specificityScore = (if length name > 3 then 10 else 0);
                     purposeScore = (if clear_purpose then 15 else 0);
                     isExplicit = str_includes (toLowerCase systemDescription) (toLowerCase name);
                     explicitScore = (if isExplicit then 15 else 0)
                 in Inr (math_min (Fin 100)
                      (math_round
                         (Fin (baseline + specificityScore + purposeScore + explicitScore)))))
        | _ \<Rightarrow> Inl TypeError))"

definition score_tool :: "coercion \<Rightarrow> string \<Rightarrow> json \<Rightarrow> js_error + scored" where
  "score_tool coerce systemDescription tool =
     (case tool_confidence coerce systemDescription tool of
        Inl e \<Rightarrow> Inl e
      | Inr c \<Rightarrow> Inr \<lparr>entity = tool, confidence = c\<rparr>)"

text \<open>The callback of \<open>result.relationships.map\<close>.\<close>

definition relationship_confidence :: "coercion \<Rightarrow> json \<Rightarrow> js_error + js_number" where
  "relationship_confidence coerce rel =
     (if rel = JNull then Inl TypeError
      else (case length_exceeds coerce (own_prop rel ''description'') 20 of
          Inl e \<Rightarrow> Inl e
        | Inr well_defined \<Rightarrow>
            let clarityScore = (if well_defined then 15 else 0);
                sourceTargetScore =
                  (if truthy_opt (own_prop rel ''source'') \<and> truthy_opt (own_prop rel ''target'')
                   then 15 else 0);
                dataFlowScore = (if truthy_opt (own_prop rel ''dataFlow'') then 10 else 0)
            in Inr (math_min (Fin 100)
                 (math_round
                    (Fin (baseline + clarityScore + sourceTargetScore + dataFlowScore))))))"

definition score_relationship :: "coercion \<Rightarrow> json \<Rightarrow> js_error + scored" where
  "score_relationship coerce rel =
     (case relationship_confidence coerce rel of
        Inl e \<Rightarrow> Inl e
      | Inr c \<Rightarrow> Inr \<lparr>entity = rel, confidence = c\<rparr>)"

text \<open>\<open>if (result.xs) result.xs = result.xs.map(f)\<close>: a falsy value is left alone, an array
  is mapped, and \<open>.map\<close> of any other truthy value is not a function.\<close>

definition score_all :: "(json \<Rightarrow> js_error + scored) \<Rightarrow> json option \<Rightarrow> js_error + scored list option" where
  "score_all f xs =
     (if truthy_opt xs then
        (case xs of
           Some (JArr ys) \<Rightarrow> (case mapE f ys of Inl e \<Rightarrow> Inl e | Inr zs \<Rightarrow> Inr (Some zs))
         | _ \<Rightarrow> Inl TypeError)
      else Inr None)"

text \<open>\<open>components.xs && components.xs.length > 0\<close> on the scored components.\<close>

definition non_empty :: "scored list option \<Rightarrow> bool" where
  "non_empty xs = (case xs of Some ys \<Rightarrow> length ys > 0 | None \<Rightarrow> False)"

definition calculateOverallConfidence :: "scored list option \<Rightarrow> scored list option \<Rightarrow>
    scored list option \<Rightarrow> string \<Rightarrow> int" where
  "calculateOverallConfidence ags tls rels systemDescription =
     (let score = 65 + min 10 (of_nat (length systemDescription) / 200);
          score = (case ags of
                     Some as \<Rightarrow>
                       if length as > 0 then
                         (let agentScores = map (\<lambda>a. or_zero (confidence a)) as in
                          score + min 10 (foldl (+) 0 agentScores / of_nat (length agentScores) / 10))
                       else score - 15
                   | None \<Rightarrow> score - 15);
          score = (if non_empty tls then score + 5 else score);
          score = (if non_empty rels then score + 10 else score)
      in round_half_up score)"

definition assessCompleteness :: "scored list option \<Rightarrow> scored list option \<Rightarrow>
    scored list option \<Rightarrow> json option \<Rightarrow> int" where
  "assessCompleteness ags tls rels pat =
     (let score = 50;
          score = (if non_empty ags then score + 15 else score);
          score = (if non_empty tls then score + 10 else score);
          score = (if non_empty rels then score + 15 else score);
          score = (if truthy_opt pat then score + 10 else score)
      in round_half_up score)"

text \<open>\<open>agentNames.has(x)\<close> for a possibly undefined \<open>x\<close>, on the set of the agents' names
  (each possibly undefined).\<close>

definition names_has :: "json option list \<Rightarrow> json option \<Rightarrow> bool" where
  "names_has names x =
     (x \<in> set names \<and> (case x of Some v \<Rightarrow> is_primitive v | None \<Rightarrow> True))"

definition assessConsistency :: "scored list option \<Rightarrow> scored list option \<Rightarrow> int" where
  "assessConsistency ags rels =
     (let score = 70 in
      case (rels, ags) of
        (Some rs, Some as) \<Rightarrow>
          (let agentNames = map (\<lambda>a. own_prop (entity a) ''name'') as;
               validRelations = length (filter (\<lambda>rel.
                   names_has agentNames (own_prop (entity rel) ''source'')
                   \<and> names_has agentNames (own_prop (entity rel) ''target'')) rs);
               totalRelations = length rs
           in if totalRelations > 0
              then round_half_up (of_int (score
                     + round_half_up (20 * (of_nat validRelations / of_nat totalRelations))))
              else round_half_up (of_int score))
      | _ \<Rightarrow> round_half_up (of_int score))"

definition assessClarity :: "string \<Rightarrow> int" where
  "assessClarity systemDescription =
     (let score = 60;
          score = (if hasSections systemDescription then score + 15 else score);
          score = score + min 10 (of_nat (length systemDescription) / 300);
          score = (if str_includes systemDescription ''example''
                      \<or> str_includes systemDescription ''for instance''
                   then score + 10 else score)
      in round_half_up score)"

definition calculateConfidenceScores :: "coercion \<Rightarrow> json \<Rightarrow> string \<Rightarrow>
    js_error + scored_components" where
  "calculateConfidenceScores coerce components systemDescription =
     (case score_all (score_agent coerce systemDescription) (own_prop components ''agents'') of
        Inl e \<Rightarrow> Inl e
      | Inr ags \<Rightarrow>
         (case score_all (score_tool coerce systemDescription) (own_prop components ''tools'') of
            Inl e \<Rightarrow> Inl e
          | Inr tls \<Rightarrow>
             (case score_all (score_relationship coerce) (own_prop components ''relationships'') of
                Inl e \<Rightarrow> Inl e
              | Inr rels \<Rightarrow>
                 (let pat = own_prop components ''orchestrationPattern'' in
                  Inr \<lparr>result_agents = ags, result_tools = tls, result_relationships = rels,
                       result_orchestrationPattern = pat,
                       systemConfidence =
                         \<lparr>overall = min 95 (calculateOverallConfidence ags tls rels systemDescription),
                          completeness = assessCompleteness ags tls rels pat,
                          consistency = assessConsistency ags rels,
                          clarity = assessClarity systemDescription\<rparr>\<rparr>))))"

text \<open>The four system-level metrics alone.\<close>

definition system_metrics :: "coercion \<Rightarrow> json \<Rightarrow> string \<Rightarrow> js_error + system_confidence" where
  "system_metrics coerce components systemDescription =
     (case calculateConfidenceScores coerce components systemDescription of
        Inl e \<Rightarrow> Inl e
      | Inr r \<Rightarrow> Inr (systemConfidence r))"

text \<open>The overall score before the cap, as \<open>calculateConfidenceScores\<close> computes it.\<close>

definition pre_cap_overall :: "scored_components \<Rightarrow> string \<Rightarrow> int" where
  "pre_cap_overall r systemDescription =
     calculateOverallConfidence (result_agents r) (result_tools r) (result_relationships r)
       systemDescription"

text \<open>The scored agents of a result, none when \<open>agents\<close> was falsy.\<close>

definition scored_agents :: "scored_components \<Rightarrow> scored list" where
  "scored_agents r = (case result_agents r of Some as \<Rightarrow> as | None \<Rightarrow> [])"

subsection \<open>The scorer in the words of the specification\<close>

text \<open>The number of case-insensitive occurrences of a name in a text, as a regular
  expression search counts them: from left to right, without overlap.\<close>

definition occurrences :: "string \<Rightarrow> string \<Rightarrow> nat" where
  "occurrences name sourceText = count_matches name sourceText"

text \<open>Per-agent confidence: \<open>min(100, round(70 + detailScore + mentionScore + roleScore))\<close>
  with \<open>detailScore = min(15, len(description)/20)\<close>, or \<open>0\<close> without a description,
  \<open>mentionScore = min(10, 2 \<times> occurrences)\<close> and \<open>roleScore = 10 if len(role) > 10 else 0\<close>.\<close>

definition spec_agent_confidence :: "string option \<Rightarrow> string \<Rightarrow> string \<Rightarrow> string \<Rightarrow> int" where
  "spec_agent_confidence description name role sourceText =
     min 100 (round (70
       + min 15 (case description of None \<Rightarrow> 0 | Some d \<Rightarrow> (of_nat (length d) :: rat) / 20)
       + min 10 (2 * of_nat (occurrences name sourceText))
       + (if length role > 10 then 10 else 0)))"

definition mean :: "rat list \<Rightarrow> rat" where
  "mean xs = sum_list xs / of_nat (length xs)"


subsection \<open>Components as the data model has them\<close>

text \<open>A field that is a string, a field that is a string where present, and the entries
  of \<open>components[key]\<close> when that is an array (none otherwise).\<close>

definition is_string :: "json option \<Rightarrow> bool" where
  "is_string x = (case x of Some (JStr s) \<Rightarrow> True | _ \<Rightarrow> False)"

definition string_or_absent :: "json option \<Rightarrow> bool" where
  "string_or_absent x = (case x of None \<Rightarrow> True | Some (JStr s) \<Rightarrow> True | Some _ \<Rightarrow> False)"

definition entries :: "json \<Rightarrow> string \<Rightarrow> json list" where
  "entries components key = (case own_prop components key of Some (JArr xs) \<Rightarrow> xs | _ \<Rightarrow> [])"

text \<open>An agent has a string \<open>name\<close> and, where present, a string \<open>description\<close> and
  \<open>role\<close>; a tool a string \<open>name\<close> and, where present, a string \<open>purpose\<close>; a relationship,
  where present, a string \<open>description\<close>.\<close>

definition typed_agent :: "json \<Rightarrow> bool" where
  "typed_agent a =
     (is_string (own_prop a ''name'') \<and> string_or_absent (own_prop a ''description'')
      \<and> string_or_absent (own_prop a ''role''))"

definition typed_tool :: "json \<Rightarrow> bool" where
  "typed_tool t = (is_string (own_prop t ''name'') \<and> string_or_absent (own_prop t ''purpose''))"

definition typed_relationship :: "json \<Rightarrow> bool" where
  "typed_relationship rel = string_or_absent (own_prop rel ''description'')"

text \<open>\<open>components[key]\<close> is falsy, or an array of entries that are not \<open>null\<close> and are
  typed.\<close>

definition valid_entities :: "(json \<Rightarrow> bool) \<Rightarrow> json option \<Rightarrow> bool" where
  "valid_entities typed xs =
     (case xs of
        Some (JArr ys) \<Rightarrow> list_all (\<lambda>y. y \<noteq> JNull \<and> typed y) ys
      | _ \<Rightarrow> \<not> truthy_opt xs)"

definition valid_components :: "json \<Rightarrow> bool" where
  "valid_components components =
     (valid_entities typed_agent (own_prop components ''agents'')
      \<and> valid_entities typed_tool (own_prop components ''tools'')
      \<and> valid_entities typed_relationship (own_prop components ''relationships''))"

subsection \<open>Sample components\<close>

text \<open>One agent whose description is an object with a negative \<open>length\<close>; one agent
  without any key; and a small well-formed analysis with its source text.  The sample
  coercion \<open>no_coercion\<close> maps every value to \<open>NaN\<close>; the samples never consult it.\<close>

definition no_coercion :: coercion where
  "no_coercion v = Some NaN"

definition negative_length_components :: json where
  "negative_length_components =
     JObj [(''agents'', JArr [JObj [(''name'', JStr ''A''),
        (''description'', JObj [(''length'', JNum (- 100000))])]])]"

definition nameless_agent_components :: json where
  "nameless_agent_components = JObj [(''agents'', JArr [JObj []])]"

definition sample_agent :: json where
  "sample_agent = JObj [(''name'', JStr ''Planner''), (''role'', JStr ''plans the work''),
     (''description'', JStr ''Breaks a request into ordered tasks'')]"

definition sample_tool :: json where
  "sample_tool = JObj [(''name'', JStr ''Search''), (''purpose'', JStr ''finds documents'')]"

definition sample_components :: json where
  "sample_components =
     JObj [(''agents'', JArr [sample_agent]),
           (''tools'', JArr [sample_tool]),
           (''relationships'', JArr []),
           (''orchestrationPattern'', JObj [(''type'', JStr ''Sequential'')])]"

definition sample_text :: string where
  "sample_text = ''The planner hands tasks to a worker. The Planner uses search.''"

definition sample_scored :: scored_components where
  "sample_scored =
     \<lparr>result_agents = Some [\<lparr>entity = sample_agent, confidence = Fin 86\<rparr>],
      result_tools = Some [\<lparr>entity = sample_tool, confidence = Fin 95\<rparr>],
      result_relationships = Some [],
      result_orchestrationPattern = Some (JObj [(''type'', JStr ''Sequential'')]),
      systemConfidence = \<lparr>overall = 79, completeness = 85, consistency = 70, clarity = 60\<rparr>\<rparr>"

section \<open>Entity matching (\<open>promptTestingService.ts\<close>)\<close>

text \<open>\<open>str.split(/\s+/)\<close>: the pieces between the maximal runs of white space; a run at
  the start or at the end leaves an empty piece there.\<close>

function split_ws :: "string \<Rightarrow> string list" where
  "split_ws s =
     (let w = takeWhile (\<lambda>c. \<not> is_space c) s;
          r = dropWhile (\<lambda>c. \<not> is_space c) s
      in if r = [] then [w] else w # split_ws (dropWhile is_space r))"
  by pat_completeness auto
termination
proof (relation "measure length")
  show "wf (measure length)" by simp
next
  fix s w r :: string
  assume r: "r = dropWhile (\<lambda>c. \<not> is_space c) s" and ne: "r \<noteq> []"
  from ne obtain c cs where c: "r = c # cs" by (cases r) auto
  with r have "is_space c" by (metis hd_dropWhile list.sel(1) ne)
  with c have "length (dropWhile is_space r) \<le> length cs" by (simp add: length_dropWhile_le)
  with c have "length (dropWhile is_space r) < length r" by simp
  also have "length r \<le> length s" unfolding r by (rule length_dropWhile_le)
  finally show "(dropWhile is_space r, s) \<in> measure length" by simp
qed

declare split_ws.simps [simp del]

text \<open>\<open>calculateStringSimilarity\<close>: Jaccard similarity of the two sets of words.\<close>

definition calculateStringSimilarity :: "string \<Rightarrow> string \<Rightarrow> rat" where
  "calculateStringSimilarity str1 str2 =
     (if str1 = str2 then 1
      else if length str1 = 0 \<or> length str2 = 0 then 0
      else
        let words1 = remdups (split_ws str1);
            words2 = remdups (split_ws str2);
            intersection = filter (\<lambda>word. word \<in> set words2) words1;
            union = remdups (words1 @ words2)
        in of_nat (length intersection) / of_nat (length union))"

text \<open>\<open>Object.keys(x)\<close> for a value that is not \<open>null\<close>: the own keys of an object, the
  indices of an array or string, nothing for a number or boolean.\<close>

fun object_keys :: "json \<Rightarrow> string list" where
  "object_keys (JObj kvs) = remdups (map fst kvs)"
| "object_keys (JArr xs) = map showNat [0..<length xs]"
| "object_keys (JStr s) = map showNat [0..<length s]"
| "object_keys _ = []"

text \<open>\<open>typeof x === 'object' && x !== null\<close>, and \<open>a === b\<close> on two values from different
  parsed trees (an array or object is only identical to itself).\<close>

fun is_object :: "json \<Rightarrow> bool" where
  "is_object (JArr xs) = True"
| "is_object (JObj kvs) = True"
| "is_object _ = False"

definition strict_equal :: "json \<Rightarrow> json \<Rightarrow> bool" where
  "strict_equal a b = (is_primitive a \<and> a = b)"

text \<open>The overlap of two arrays: the items of \<open>actual\<close> that the set of \<open>expected\<close> has,
  over the longer length.  For two empty arrays this is \<open>0 / 0\<close>.\<close>

definition array_overlap :: "json list \<Rightarrow> json list \<Rightarrow> js_number" where
  "array_overlap actualItems expectedItems =
     (let matchingItems = filter (\<lambda>item. set_has expectedItems item) actualItems;
          longest = max (length expectedItems) (length actualItems)
      in if longest = 0 then NaN
         else Fin (of_nat (length matchingItems) / of_nat longest))"

lemma own_prop_size:
  assumes "own_prop x k = Some v" and "is_object v"
  shows "size v < size x"
proof (cases x)
  case (JArr xs)
  with assms obtain i where "i < length xs" and "v = xs ! i"
    by (auto simp: index_of_def split: if_splits option.splits dest!: find_Some_iff [THEN iffD1])
  then have "v \<in> set xs" by simp
  then have "size v < Suc (size_list size xs)"
    by (induction xs) auto
  with JArr show ?thesis by simp
next
  case (JObj kvs)
  with assms have "(k, v) \<in> set kvs" by (auto dest: map_of_SomeD)
  then have "size v < Suc (size_list (size_prod (\<lambda>_. 0) size) kvs)"
    by (induction kvs) auto
  with JObj show ?thesis by simp
next
  case (JStr s)
  with assms show ?thesis by (auto split: if_splits option.splits)
qed (use assms in auto)

text \<open>The body of \<open>calculateEntityMatchScore\<close> for two values that are not \<open>null\<close>.  The
  loop adds one contribution for every key that \<open>expected\<close> defines; a key that
  \<open>actual\<close> does not define, or whose values match in none of the four ways, adds
  \<open>0\<close>.\<close>

function match_score :: "json \<Rightarrow> json \<Rightarrow> js_number" where
  "match_score actual expected =
     (let allKeys = remdups (object_keys actual @ object_keys expected);
          counted = filter (\<lambda>key. own_prop expected key \<noteq> None) allKeys;
          contributions = map (\<lambda>key.
            (case own_prop expected key of
               None \<Rightarrow> Fin 0
             | Some e \<Rightarrow>
                (case own_prop actual key of
                   None \<Rightarrow> Fin 0
                 | Some a \<Rightarrow>
                    (case (e, a) of
                       (JArr es, JArr as) \<Rightarrow> array_overlap as es
                     | _ \<Rightarrow>
                        if is_object e \<and> is_object a then match_score a e
                        else if strict_equal e a then Fin 1
                        else (case (e, a) of
                                (JStr se, JStr sa) \<Rightarrow>
                                  (let similarity =
                                     calculateStringSimilarity (toLowerCase se) (toLowerCase sa)
                                   in Fin (if similarity > 7 / 10 then similarity else 0))
                              | _ \<Rightarrow> Fin 0))))) counted;
          matchScore = foldl num_add (Fin 0) contributions;
          totalKeys = length counted
      in if totalKeys > 0 then num_div_by matchScore (of_nat totalKeys) else Fin 0)"
  by pat_completeness auto
termination
  by (relation "measure (\<lambda>(actual, expected). size expected)")
     (auto dest: own_prop_size)

declare match_score.simps [simp del]

text \<open>\<open>calculateEntityMatchScore\<close>: \<open>Object.keys\<close> throws on \<open>null\<close>.\<close>

definition calculateEntityMatchScore :: "json \<Rightarrow> json \<Rightarrow> js_error + js_number" where
  "calculateEntityMatchScore actual expected =
     (if actual = JNull \<or> expected = JNull then Inl TypeError
      else Inr (match_score actual expected))"

text \<open>\<open>calculateEntityAccuracy\<close>.  The inner loop keeps the best score seen so far, which
  starts at \<open>0\<close> and is replaced by a score only if that is greater (never by \<open>NaN\<close>); the
  outer loop adds up the best scores.\<close>

fun best_match :: "json list \<Rightarrow> json \<Rightarrow> rat \<Rightarrow> js_error + rat" where
  "best_match [] expectedEntity bestMatchScore = Inr bestMatchScore"
| "best_match (actualEntity # rest) expectedEntity bestMatchScore =
     (case calculateEntityMatchScore actualEntity expectedEntity of
        Inl err \<Rightarrow> Inl err
      | Inr matchScore \<Rightarrow>
          best_match rest expectedEntity
            (case matchScore of
               Fin q \<Rightarrow> if q > bestMatchScore then q else bestMatchScore
             | NaN \<Rightarrow> bestMatchScore))"

fun sum_best :: "json list \<Rightarrow> json list \<Rightarrow> rat \<Rightarrow> js_error + rat" where
  "sum_best actual [] matchCount = Inr matchCount"
| "sum_best actual (expectedEntity # rest) matchCount =
     (case best_match actual expectedEntity 0 of
        Inl err \<Rightarrow> Inl err
      | Inr bestMatchScore \<Rightarrow> sum_best actual rest (matchCount + bestMatchScore))"

definition calculateEntityAccuracy :: "json list \<Rightarrow> json list \<Rightarrow> js_error + rat" where
  "calculateEntityAccuracy actual expected =
     (if length expected = 0 then Inr (if length actual = 0 then 1 else 0)
      else if length actual = 0 then Inr 0
      else (case sum_best actual expected 0 of
              Inl err \<Rightarrow> Inl err
            | Inr matchCount \<Rightarrow> Inr (matchCount / of_nat (length expected))))"



subsection \<open>Entity accuracy in the words of the specification\<close>


definition tagless :: json where
  "tagless = JObj [(''name'', JStr ''A''), (''tags'', JArr [])]"

section \<open>Extraction of the JSON text from the model response\<close>

text \<open>
  The regular expressions of the extraction steps, each modelled by the search it
  performs.  A search returns the leftmost match; \<open>[\s\S]*?\<close> takes as little and
  \<open>[\s\S]*\<close> as much as the rest of the pattern allows.
\<close>

definition fence :: string where "fence = ''```''"

text \<open>\<open>/\{[\s\S]*?\}/\<close> (and \<open>/(\{[\s\S]*?\})/\<close>, whose group is the whole match): from the
  first \<open>{\<close> up to the first \<open>}\<close> after it.\<close>

definition lazy_braces :: "string \<Rightarrow> string option" where
  "lazy_braces s =
     (case dropWhile (\<lambda>c. c \<noteq> CHR ''{'') s of
        [] \<Rightarrow> None
      | b # rest \<Rightarrow>
          if CHR ''}'' \<in> set rest
          then Some (b # takeWhile (\<lambda>c. c \<noteq> CHR ''}'') rest @ ''}'')
          else None)"

text \<open>\<open>/\{[\s\S]*\}/\<close>: from the first \<open>{\<close> up to the last \<open>}\<close> after it.\<close>

definition greedy_braces :: "string \<Rightarrow> string option" where
  "greedy_braces s =
     (case dropWhile (\<lambda>c. c \<noteq> CHR ''{'') s of
        [] \<Rightarrow> None
      | b # rest \<Rightarrow>
          if CHR ''}'' \<in> set rest
          then Some (b # rev (dropWhile (\<lambda>c. c \<noteq> CHR ''}'') (rev rest)))
          else None)"

text \<open>The text behind the first fence, if there is a fence.\<close>

fun after_fence :: "string \<Rightarrow> string option" where
  "after_fence [] = None"
| "after_fence (c # cs) =
     (if prefix fence (c # cs) then Some (drop 3 (c # cs)) else after_fence cs)"

text \<open>The lazy group followed by \<open>\s*```\<close>: the shortest prefix behind which only white
  space separates from a fence.\<close>

fun until_fence :: "string \<Rightarrow> string option" where
  "until_fence [] = None"
| "until_fence (c # cs) =
     (if prefix fence (dropWhile is_space (c # cs)) then Some []
      else map_option (Cons c) (until_fence cs))"

text \<open>Group 1 of \<open>/```(?:json)?\s*([\s\S]*?)\s*```/\<close>, and of \<open>/```json\s*([\s\S]*?)\s*```/\<close>
  where the tag is required.  The tag and the white space hold no backquote, so the greedy
  choices for them never lose a match, and a search that fails at the first fence fails
  at every later one.\<close>

definition code_block :: "string \<Rightarrow> string option" where
  "code_block s =
     (case after_fence s of
        None \<Rightarrow> None
      | Some rest \<Rightarrow>
          until_fence (dropWhile is_space (if prefix ''json'' rest then drop 4 rest else rest)))"

fun after_json_fence :: "string \<Rightarrow> string option" where
  "after_json_fence [] = None"
| "after_json_fence (c # cs) =
     (if prefix ''```json'' (c # cs) then Some (drop 7 (c # cs)) else after_json_fence cs)"

text \<open>The whole match of \<open>/```json\s*([\s\S]*?)\s*```/\<close>: the tagged fence, the white
  space behind it, the group, the white space behind the group and the closing fence.
  A search that fails at the first tagged fence finds no fence behind it, hence no later
  tagged fence.\<close>

definition json_code_block :: "string \<Rightarrow> string option" where
  "json_code_block s =
     (case after_json_fence s of
        None \<Rightarrow> None
      | Some rest \<Rightarrow>
          (let space1 = takeWhile is_space rest;
               body = dropWhile is_space rest
           in case until_fence body of
                None \<Rightarrow> None
              | Some block \<Rightarrow>
                  Some (''```json'' @ space1 @ block
                        @ takeWhile is_space (drop (length block) body) @ fence)))"

text \<open>\<open>JSON.parse\<close> is a parameter: \<open>parse s\<close> is the value of the text \<open>s\<close>, or \<open>None\<close>
  where \<open>JSON.parse\<close> throws a \<open>SyntaxError\<close>.\<close>

type_synonym json_parse = "string \<Rightarrow> json option"

subsection \<open>\<open>generateSystemDiagram\<close>\<close>

text \<open>The candidate \<open>jsonText\<close>: the trimmed text if it starts with \<open>{\<close> and ends with
  \<open>}\<close>; else the trimmed interior of a fenced block, if that is not empty; else the inline
  match; else the step throws.\<close>

definition diagram_json_text :: "string \<Rightarrow> js_error + string" where
  "diagram_json_text txt =
     (if prefix ''{'' (trim txt) \<and> suffix ''}'' (trim txt) then Inr (trim txt)
      else (case code_block txt of
          Some block \<Rightarrow>
            if block \<noteq> [] then Inr (trim block)
            else (case lazy_braces txt of Some m \<Rightarrow> Inr m | None \<Rightarrow> Inl NoJsonFound)
        | None \<Rightarrow> (case lazy_braces txt of Some m \<Rightarrow> Inr m | None \<Rightarrow> Inl NoJsonFound)))"

text \<open>Parsing the candidate, with the one fallback: on a parse error the candidate is
  searched with \<open>/(\{[\s\S]*?\})/\<close> and the match is parsed; without a match the first
  parse error is rethrown.\<close>

definition parse_with_fallback :: "json_parse \<Rightarrow> string \<Rightarrow> js_error + json" where
  "parse_with_fallback parse jsonText =
     (case parse jsonText of
        Some v \<Rightarrow> Inr v
      | None \<Rightarrow>
          (case lazy_braces jsonText of
             Some strict \<Rightarrow> (case parse strict of Some v \<Rightarrow> Inr v | None \<Rightarrow> Inl MalformedJson)
           | None \<Rightarrow> Inl MalformedJson))"

definition extract_diagram_json :: "json_parse \<Rightarrow> string \<Rightarrow> js_error + json" where
  "extract_diagram_json parse txt =
     (case diagram_json_text txt of
        Inl e \<Rightarrow> Inl e
      | Inr jsonText \<Rightarrow> parse_with_fallback parse jsonText)"

text \<open>The whole handling of a response: any error of the extraction or of the
  normalisation is caught, and the basic diagram of the input agents is returned
  instead.\<close>

definition fallback_diagram :: "agent list \<Rightarrow> diagram_data" where
  "fallback_diagram inputAgents =
     \<lparr>nodes = map agent_node inputAgents, edges = [], layout = JStr ''dagre'', groups = None\<rparr>"

definition diagram_of_response :: "json_parse \<Rightarrow> string \<Rightarrow> agent list \<Rightarrow> diagram_data" where
  "diagram_of_response parse txt inputAgents =
     (case extract_diagram_json parse txt of
        Inl e \<Rightarrow> fallback_diagram inputAgents
      | Inr jsonResponse \<Rightarrow>
          (case normalize_diagram jsonResponse inputAgents of
             Inl e \<Rightarrow> fallback_diagram inputAgents
           | Inr d \<Rightarrow> d))"

subsection \<open>\<open>processInitialDescription\<close>\<close>

text \<open>\<open>s.replace(/```json\s*|\s*```/g, '')\<close>.\<close>

function strip_fences :: "string \<Rightarrow> string" where
  "strip_fences s =
     (if prefix ''```json'' s then strip_fences (dropWhile is_space (drop 7 s))
      else if prefix fence (dropWhile is_space s) then strip_fences (drop 3 (dropWhile is_space s))
      else (case s of [] \<Rightarrow> [] | c # cs \<Rightarrow> c # strip_fences cs))"
  by pat_completeness auto
termination
proof (relation "measure length")
  show "wf (measure length)" by simp
next
  fix s :: string
  assume "prefix ''```json'' s"
  then have "7 \<le> length s" by (auto dest: prefix_length_le)
  moreover have "length (dropWhile is_space (drop 7 s)) \<le> length (drop 7 s)"
    by (rule length_dropWhile_le)
  ultimately show "(dropWhile is_space (drop 7 s), s) \<in> measure length" by simp
next
  fix s :: string
  assume "prefix fence (dropWhile is_space s)"
  then have "3 \<le> length (dropWhile is_space s)" by (auto simp: fence_def dest: prefix_length_le)
  moreover have "length (dropWhile is_space s) \<le> length s" by (rule length_dropWhile_le)
  ultimately show "(drop 3 (dropWhile is_space s), s) \<in> measure length" by simp
next
  fix s :: string and c cs
  assume "s = c # cs"
  then show "(cs, s) \<in> measure length" by simp
qed

declare strip_fences.simps [simp del]

text \<open>\<open>jsonMatch[0]\<close> is the whole match of the tagged block, or else of
  \<open>/\{[\s\S]*\}/\<close>; the fences are then stripped from it.\<close>

definition initial_json_text :: "string \<Rightarrow> js_error + string" where
  "initial_json_text txt =
     (case json_code_block txt of
        Some m \<Rightarrow> Inr (strip_fences m)
      | None \<Rightarrow>
          (case greedy_braces txt of
             Some m \<Rightarrow> Inr (strip_fences m)
           | None \<Rightarrow> Inl NoJsonFound))"

definition extract_initial_json :: "json_parse \<Rightarrow> string \<Rightarrow> js_error + json" where
  "extract_initial_json parse txt =
     (case initial_json_text txt of
        Inl e \<Rightarrow> Inl e
      | Inr cleanedJson \<Rightarrow> (case parse cleanedJson of Some v \<Rightarrow> Inr v | None \<Rightarrow> Inl MalformedJson))"


text \<open>A response that wraps the diagram object in prose, without a fence.\<close>

definition prose_response :: string where
  \<open>prose_response = ''Here is the diagram: {"nodes":[{"id":"a"}],"edges":[]} Done.''\<close>

definition prose_fragment :: string where
  \<open>prose_fragment = ''{"nodes":[{"id":"a"}''\<close>

definition prose_object :: string where
  \<open>prose_object = ''{"nodes":[{"id":"a"}],"edges":[]}''\<close>

text \<open>The text of the scenario of the vertices and links.\<close>

definition vertices_links_text :: string where
  \<open>vertices_links_text =
     ''{"vertices":[{"id":"n1","name":"X"}],"links":[{"from":"n1","to":"n2"}]}''\<close>

section \<open>Properties of the retry controller\<close>

lemma includes_rate_limit_exceeded: "str_includes ''rate limit exceeded'' ''rate limit''"
  by (simp add: str_includes_def)

lemma not_includes_permission_denied:
  "\<not> str_includes ''permission denied'' ''rate limit''"
  "\<not> str_includes ''permission denied'' ''timeout''"
  unfolding str_includes_def by code_simp+

text \<open>
  Claim C5.  When the operation throws an error whose message contains "rate limit" on its
  first and on its second invocation and returns a value on the third, \<open>withRetry\<close>
  returns that value, has invoked the operation exactly 3 times, and has slept 1000 ms and
  then 2000 ms (the delay doubles, capped at \<open>maxDelay\<close>).
\<close>

theorem withRetry_rate_limit_twice:
  assumes "fn s0 = (Inl e1, s1)" and "message e1 = Some m1" and "str_includes m1 ''rate limit''"
    and "fn s1 = (Inl e2, s2)" and "message e2 = Some m2" and "str_includes m2 ''rate limit''"
    and "fn s2 = (Inr v, s3)"
  shows "withRetry fn s0 =
    \<lparr>outcome = Inr v, final = s3, invocations = 3, sleeps = [1000, 2000]\<rparr>"
  using assms
  by (simp add: withRetry_def initialDelay_def maxRetries_def maxDelay_def)

theorem withRetry_rate_limit_twice_witness:
  "flaky 0 = (Inl \<lparr>message = Some ''rate limit exceeded'', ident = 0\<rparr>, 1)
   \<and> flaky 1 = (Inl \<lparr>message = Some ''rate limit exceeded'', ident = 1\<rparr>, 2)
   \<and> flaky 2 = (Inr ''ok'', 3)
   \<and> withRetry flaky 0 =
       \<lparr>outcome = Inr ''ok'', final = 3, invocations = 3, sleeps = [1000, 2000]\<rparr>"
proof -
  have a: "flaky 0 = (Inl \<lparr>message = Some ''rate limit exceeded'', ident = 0\<rparr>, 1)"
    and b: "flaky 1 = (Inl \<lparr>message = Some ''rate limit exceeded'', ident = 1\<rparr>, 2)"
    and c: "flaky 2 = (Inr ''ok'', 3)"
    by (simp_all add: flaky_def)
  have "withRetry flaky 0 =
      \<lparr>outcome = Inr ''ok'', final = 3, invocations = 3, sleeps = [1000, 2000]\<rparr>"
    using withRetry_rate_limit_twice [of flaky 0 _ 1 "''rate limit exceeded''" _ 2
        "''rate limit exceeded''" "''ok''" 3] a b c includes_rate_limit_exceeded
    by simp
  with a b c show ?thesis by simp
qed

text \<open>When every invocation throws a retriable error, the operation is invoked four
  times, with the delays 1000, 2000 and 4000 ms in between, and the fourth error is
  rethrown: the delay reaches \<open>maxDelay\<close> only when no retry is left.\<close>

lemma withRetry_exhausted:
  assumes "fn s0 = (Inl e1, s1)" and "message e1 = Some m1" and "str_includes m1 ''timeout''"
    and "fn s1 = (Inl e2, s2)" and "message e2 = Some m2" and "str_includes m2 ''timeout''"
    and "fn s2 = (Inl e3, s3)" and "message e3 = Some m3" and "str_includes m3 ''timeout''"
    and "fn s3 = (Inl e4, s4)"
  shows "withRetry fn s0 =
    \<lparr>outcome = Inl (Rethrown e4), final = s4, invocations = 4, sleeps = [1000, 2000, 4000]\<rparr>"
  using assms
  by (simp add: withRetry_def initialDelay_def maxRetries_def maxDelay_def)

text \<open>
  Claim C6.  When the operation throws an error whose message contains neither "rate limit"
  nor "timeout", \<open>withRetry\<close> invokes it exactly once, sleeps not at all, and rethrows
  the very error the operation threw.
\<close>

theorem withRetry_other_error:
  assumes "fn s0 = (Inl e, s1)" and "message e = Some m"
    and "\<not> str_includes m ''rate limit''" and "\<not> str_includes m ''timeout''"
  shows "withRetry fn s0 =
    \<lparr>outcome = Inl (Rethrown e), final = s1, invocations = 1, sleeps = []\<rparr>"
  using assms
  by (simp add: withRetry_def initialDelay_def maxRetries_def maxDelay_def)

theorem withRetry_other_error_witness:
  "denied 0 = (Inl \<lparr>message = Some ''permission denied'', ident = 0\<rparr>, 1)
   \<and> withRetry denied 0 =
       \<lparr>outcome = Inl (Rethrown \<lparr>message = Some ''permission denied'', ident = 0\<rparr>),
        final = 1, invocations = 1, sleeps = []\<rparr>"
proof -
  have a: "denied 0 = (Inl \<lparr>message = Some ''permission denied'', ident = 0\<rparr>, 1)"
    by (simp add: denied_def)
  have "withRetry denied 0 =
      \<lparr>outcome = Inl (Rethrown \<lparr>message = Some ''permission denied'', ident = 0\<rparr>),
       final = 1, invocations = 1, sleeps = []\<rparr>"
    using withRetry_other_error [of denied 0 _ 1 "''permission denied''"] a
      not_includes_permission_denied
    by simp
  with a show ?thesis by simp
qed

section \<open>Properties of the diagram normaliser\<close>

lemma mapE_succeeds:
  assumes "\<And>x. x \<in> set xs \<Longrightarrow> \<exists>y. f x = Inr y"
  shows "\<exists>ys. mapE f xs = Inr ys"
  using assms
proof (induction xs)
  case Nil
  show ?case by simp
next
  case (Cons x xs)
  from Cons.prems obtain y where y: "f x = Inr y" by auto
  from Cons obtain ys where "mapE f xs = Inr ys" by auto
  with y show ?case by simp
qed

text \<open>Mapping and filtering the edge array only throws on a \<open>null\<close> entry: an edge that
  points to an unknown node never makes the step fail.\<close>

lemma normalize_edges_succeeds:
  assumes "JNull \<notin> set xs"
  shows "\<exists>es. normalize_edges (Some (JArr xs)) ns = Inr es"
proof -
  have "\<exists>ys. mapE (\<lambda>(edge, index). normalize_edge edge index) (zip xs [0..<length xs]) = Inr ys"
  proof (rule mapE_succeeds)
    fix p assume "p \<in> set (zip xs [0..<length xs])"
    then have "fst p \<in> set xs" by (metis prod.collapse set_zip_leftD)
    with assms have "fst p \<noteq> JNull" by auto
    then show "\<exists>y. (case p of (edge, index) \<Rightarrow> normalize_edge edge index) = Inr y"
      by (cases p) (simp add: normalize_edge_def)
  qed
  then show ?thesis by (auto simp: normalize_edges_def)
qed

lemma normalize_edges_kept:
  assumes "normalize_edges edgeData ns = Inr es" and "e \<in> set es"
  shows "edge_exists (map nid ns) e"
  using assms
  by (auto simp: normalize_edges_def split: option.splits json.splits sum.splits)

text \<open>
  Claim C2.  Whenever normalisation of a parsed response returns a diagram, every edge of
  that diagram has its source and its target among the ids of the diagram's nodes.  (Edges
  that fail the test are filtered out; by \<open>normalize_edges_succeeds\<close> they do not make
  the normalisation fail.)
\<close>

theorem normalize_diagram_edges_reference_nodes:
  assumes "normalize_diagram j agents = Inr d"
  shows "\<forall>e \<in> set (edges d).
           source e \<in> set (map nid (nodes d)) \<and> target e \<in> set (map nid (nodes d))"
proof
  fix e assume e: "e \<in> set (edges d)"
  from assms obtain ns es gs edgeData
    where es: "normalize_edges edgeData ns = Inr es"
      and d: "nodes d = ns" "edges d = es"
    by (auto simp: normalize_diagram_def Let_def split: if_splits sum.splits)
  from normalize_edges_kept [OF es] e d have "edge_exists (map nid (nodes d)) e" by simp
  then show "source e \<in> set (map nid (nodes d)) \<and> target e \<in> set (map nid (nodes d))"
    by (simp add: edge_exists_def set_has_def)
qed

lemma normalize_two_edges_response:
  "normalize_diagram two_edges_response [] = Inr
     \<lparr>nodes =
        [\<lparr>nid = JStr ''a'', nlabel = JStr ''Node 0'', ntype = JStr ''agent'', nrole = None,
          ncategory = None, ndescription = None, nsize = Some (JNum 1),
          nstyle = Some (NodeStyleBuilt None None)\<rparr>,
         \<lparr>nid = JStr ''b'', nlabel = JStr ''Node 1'', ntype = JStr ''agent'', nrole = None,
          ncategory = None, ndescription = None, nsize = Some (JNum 1),
          nstyle = Some (NodeStyleBuilt None None)\<rparr>],
      edges =
        [\<lparr>eid = JStr ''edge0'', source = JStr ''a'', target = JStr ''b'', elabel = JStr '''',
          etype = JStr ''sequential'', estyle = EdgeStyleBuilt None None None None\<rparr>],
      layout = JStr ''dagre'', groups = None\<rparr>"
  by (simp add: two_edges_response_def normalize_diagram_def normalize_nodes_def
      normalize_edges_def normalize_groups_def normalize_layout_def normalize_node_def
      normalize_edge_def js_or_def or_else_def edge_exists_def set_has_def digit_char_def
      showNat.simps)

theorem normalize_diagram_edges_reference_nodes_witness:
  "(\<exists>d. normalize_diagram two_edges_response [] = Inr d
        \<and> map source (edges d) = [JStr ''a''] \<and> map target (edges d) = [JStr ''b'']
        \<and> list_all (\<lambda>e. source e \<in> set (map nid (nodes d))
                         \<and> target e \<in> set (map nid (nodes d))) (edges d))"
  using normalize_diagram_edges_reference_nodes [OF normalize_two_edges_response]
  by (simp add: normalize_two_edges_response)


text \<open>The edge of that response before the filter: its end points are \<open>n1\<close> and
  \<open>n2\<close>.\<close>

lemma vertices_links_edge_before_filter:
  "normalize_edge (JObj [(''from'', JStr ''n1''), (''to'', JStr ''n2'')]) 0 = Inr
     \<lparr>eid = JStr ''edge0'', source = JStr ''n1'', target = JStr ''n2'', elabel = JStr '''',
      etype = JStr ''sequential'', estyle = EdgeStyleBuilt None None None None\<rparr>"
  by (simp add: normalize_edge_def js_or_def or_else_def digit_char_def showNat.simps)

section \<open>Properties of the confidence scorer\<close>

text \<open>The pattern built from an escaped name denotes the name itself, so the regular
  expression search counts the occurrences of the name.\<close>

lemma literal_of_escaped: "literal_of_pattern (escapeRegExp s) = Some s"
proof (induction s)
  case Nil
  show ?case by (simp add: escapeRegExp_def)
next
  case (Cons c s)
  show ?case
  proof (cases "c \<in> set escaped_class")
    case True
    with Cons show ?thesis by (simp add: escapeRegExp_def)
  next
    case False
    then have plain: "c \<notin> set syntax_characters" "c \<noteq> backslash"
      by (auto simp: escaped_class_def syntax_characters_def)
    show ?thesis
    proof (cases "escapeRegExp s")
      case Nil
      with Cons.IH have "s = []" by simp
      with plain False show ?thesis by (simp add: escapeRegExp_def)
    next
      case (Cons d ds)
      with plain False Cons.IH show ?thesis by (simp add: escapeRegExp_def)
    qed
  qed
qed

lemma mention_count_occurrences: "mention_count name txt = Some (occurrences name txt)"
  by (simp add: mention_count_def occurrences_def literal_of_escaped)

lemma length_number_string: "length_number coerce (JStr s) = Inr (Fin (of_nat (length s)))"
  by (simp add: length_number_def)

lemma detailScore_string:
  assumes "own_prop agent ''description'' = map_option JStr description"
  shows "detailScore coerce agent =
    Inr (Fin (min 15 (case description of None \<Rightarrow> 0 | Some d \<Rightarrow> of_nat (length d) / 20)))"
proof (cases description)
  case None
  with assms show ?thesis by (simp add: detailScore_def)
next
  case (Some d)
  with assms show ?thesis
    by (cases "d = []") (simp_all add: detailScore_def length_number_string)
qed

lemma length_exceeds_string:
  "0 \<le> bound \<Longrightarrow> length_exceeds coerce (Some (JStr s)) bound = Inr (of_nat (length s) > bound)"
  by (cases "s = []") (simp_all add: length_exceeds_def length_number_string)

lemma length_exceeds_typed:
  assumes "string_or_absent field"
  shows "\<exists>b. length_exceeds coerce field bound = Inr b"
proof (cases field)
  case None
  then show ?thesis by (auto simp: length_exceeds_def)
next
  case (Some v)
  with assms obtain s where "v = JStr s"
    by (cases v) (simp_all add: string_or_absent_def)
  with Some show ?thesis
    by (cases "s = []") (auto simp: length_exceeds_def length_number_string)
qed

lemma round_half_up_round: "round_half_up q = round q"
  by (simp add: round_half_up_def round_def)

lemma min_of_int_100: "min (100 :: rat) (of_int k) = of_int (min 100 k)"
  by (simp add: min_def)

text \<open>
  Claim C3.  For an agent whose name and role are strings and whose description is a
  string or absent, and for every source text, the confidence the scorer assigns is
  \<open>min(100, round(70 + min(15, len(description)/20 or 0) + min(10, 2 \<times> occurrences of the
  name) + (10 if len(role) > 10 else 0)))\<close>.
\<close>

theorem agent_confidence_formula:
  assumes "own_prop agent ''name'' = Some (JStr name)"
    and "own_prop agent ''role'' = Some (JStr role)"
    and "own_prop agent ''description'' = map_option JStr description"
  shows "agent_confidence coerce sourceText agent =
    Inr (Fin (of_int (spec_agent_confidence description name role sourceText)))"
proof -
  from assms(1) have "agent \<noteq> JNull" by auto
  moreover have "min (10 :: rat) (of_nat (occurrences name sourceText) * 2)
      = min 10 (2 * of_nat (occurrences name sourceText))"
    by (simp add: mult.commute)
  ultimately show ?thesis
    using assms(1)
    by (simp add: agent_confidence_def mention_count_occurrences detailScore_string [OF assms(3)]
        assms(2) length_exceeds_string baseline_def round_half_up_round min_of_int_100
        spec_agent_confidence_def)
qed

lemma sample_agent_props:
  "own_prop sample_agent ''name'' = Some (JStr ''Planner'')"
  "own_prop sample_agent ''role'' = Some (JStr ''plans the work'')"
  "own_prop sample_agent ''description''
     = map_option JStr (Some ''Breaks a request into ordered tasks'')"
  by (simp_all add: sample_agent_def)

lemma sample_occurrences: "occurrences ''Planner'' sample_text = 2"
  unfolding occurrences_def sample_text_def by code_simp

theorem agent_confidence_formula_witness:
  "agent_confidence no_coercion sample_text sample_agent = Inr (Fin 86)"
proof -
  have "spec_agent_confidence (Some ''Breaks a request into ordered tasks'') ''Planner''
      ''plans the work'' sample_text = 86"
    by code_simp
  with agent_confidence_formula [OF sample_agent_props, of no_coercion sample_text]
  show ?thesis by simp
qed


subsection \<open>The system-level overall confidence\<close>

lemma foldl_plus_sum_list: "foldl (+) a xs = a + sum_list (xs :: rat list)"
  by (induction xs arbitrary: a) (simp_all add: add.assoc)

lemma round_half_up_mono: "x \<le> y \<Longrightarrow> round_half_up x \<le> round_half_up y"
  unfolding round_half_up_def by (rule floor_mono) simp

lemma round_half_up_of_int: "round_half_up (of_int k) = k"
  unfolding round_half_up_def by linarith



text \<open>A successful map yields one result per element, in order.\<close>

lemma mapE_Inr_list_all2:
  "mapE f xs = Inr ys \<Longrightarrow> list_all2 (\<lambda>x y. f x = Inr y) xs ys"
proof (induction xs arbitrary: ys)
  case Nil
  then show ?case by simp
next
  case (Cons x xs)
  then show ?case by (auto split: sum.splits)
qed

lemma score_all_Inr:
  assumes "score_all f xs = Inr res"
  shows "(res = None \<and> \<not> truthy_opt xs)
       \<or> (\<exists>ys zs. xs = Some (JArr ys) \<and> res = Some zs \<and> list_all2 (\<lambda>x y. f x = Inr y) ys zs)"
  using assms
  by (auto simp: score_all_def dest: mapE_Inr_list_all2
      split: if_splits option.splits json.splits sum.splits)


text \<open>The overall score before the cap, written as one sum.\<close>

lemma calculateOverallConfidence_sum:
  "calculateOverallConfidence ags tls rels txt =
     round_half_up (65 + min 10 (of_nat (length txt) / 200)
       + (if non_empty ags
          then min 10 (mean (map (\<lambda>a. or_zero (confidence a)) (case ags of Some as \<Rightarrow> as | None \<Rightarrow> [])) / 10)
          else - 15)
       + (if non_empty tls then 5 else 0)
       + (if non_empty rels then 10 else 0))"
  by (cases ags)
     (simp_all add: calculateOverallConfidence_def non_empty_def mean_def foldl_plus_sum_list)

lemma calculateConfidenceScores_Inr:
  assumes "calculateConfidenceScores coerce components txt = Inr r"
  shows "score_all (score_agent coerce txt) (own_prop components ''agents'') = Inr (result_agents r)"
    and "score_all (score_tool coerce txt) (own_prop components ''tools'') = Inr (result_tools r)"
    and "score_all (score_relationship coerce) (own_prop components ''relationships'')
           = Inr (result_relationships r)"
    and "result_orchestrationPattern r = own_prop components ''orchestrationPattern''"
    and "systemConfidence r =
           \<lparr>overall = min 95 (pre_cap_overall r txt),
            completeness = assessCompleteness (result_agents r) (result_tools r)
              (result_relationships r) (result_orchestrationPattern r),
            consistency = assessConsistency (result_agents r) (result_relationships r),
            clarity = assessClarity txt\<rparr>"
  using assms
  by (auto simp: calculateConfidenceScores_def pre_cap_overall_def Let_def split: sum.splits)


lemma sample_components_scored:
  "calculateConfidenceScores no_coercion sample_components sample_text = Inr sample_scored"
  by code_simp



subsection \<open>Ranges of the system-level metrics\<close>

lemma round_half_up_ge: "of_int k \<le> x \<Longrightarrow> k \<le> round_half_up x"
  using round_half_up_mono [of "of_int k" x] by (simp add: round_half_up_of_int)

lemma round_half_up_le: "x \<le> of_int k \<Longrightarrow> round_half_up x \<le> k"
  using round_half_up_mono [of x "of_int k"] by (simp add: round_half_up_of_int)

text \<open>An agent whose description is a string or absent gets a confidence between 70 and
  100.\<close>

lemma agent_confidence_range:
  assumes "agent_confidence coerce txt a = Inr c"
    and "string_or_absent (own_prop a ''description'')"
  shows "\<exists>q. c = Fin q \<and> 70 \<le> q \<and> q \<le> 100"
proof -
  have "\<exists>d. own_prop a ''description'' = map_option JStr d"
  proof (cases "own_prop a ''description''")
    case None
    then show ?thesis by (intro exI [of _ None]) simp
  next
    case (Some v)
    with assms(2) obtain s where "v = JStr s"
      by (cases v) (simp_all add: string_or_absent_def)
    with Some show ?thesis by (intro exI [of _ "Some s"]) simp
  qed
  then obtain d where d: "own_prop a ''description'' = map_option JStr d" ..
  define ds :: rat where "ds = min 15 (case d of None \<Rightarrow> 0 | Some s \<Rightarrow> of_nat (length s) / 20)"
  have ds: "detailScore coerce a = Inr (Fin ds)"
    unfolding ds_def by (rule detailScore_string [OF d])
  have ds0: "0 \<le> ds" unfolding ds_def by (simp split: option.splits)
  from assms(1) have nn: "a \<noteq> JNull"
    by (auto simp: agent_confidence_def)
  from assms(1) nn obtain name where name: "own_prop a ''name'' = Some (JStr name)"
    by (auto simp: agent_confidence_def ds split: option.splits json.splits)
  define m where "m = occurrences name txt"
  from assms(1) nn name obtain long_role
    where role: "length_exceeds coerce (own_prop a ''role'') 10 = Inr long_role"
    by (auto simp: agent_confidence_def ds mention_count_occurrences split: sum.splits)
  from assms(1) nn name role
  have c: "c = math_min (Fin 100) (math_round (Fin (baseline + ds
              + min 10 (of_nat m * 2) + (if long_role then 10 else 0))))"
    by (simp add: agent_confidence_def ds mention_count_occurrences m_def Let_def)
  define x where "x = baseline + ds + min 10 (of_nat m * 2) + (if long_role then 10 else 0)"
  have "of_int 70 \<le> x"
    using ds0 by (simp add: x_def baseline_def)
  then have "70 \<le> round_half_up x" by (rule round_half_up_ge)
  then have "70 \<le> min (100 :: rat) (of_int (round_half_up x))" by simp
  moreover have "c = Fin (min 100 (of_int (round_half_up x)))"
    using c by (simp add: x_def)
  ultimately show ?thesis by simp
qed

lemma sum_list_nonneg_rat: "(\<And>x. x \<in> set xs \<Longrightarrow> 0 \<le> x) \<Longrightarrow> 0 \<le> sum_list (xs :: rat list)"
  by (induction xs) auto

lemma mean_nonneg: "(\<And>x. x \<in> set xs \<Longrightarrow> 0 \<le> x) \<Longrightarrow> 0 \<le> mean xs"
  unfolding mean_def by (rule divide_nonneg_nonneg [OF sum_list_nonneg_rat]) simp_all

text \<open>The score before the cap never exceeds 100, and is at least 50 when no agent
  confidence is negative.\<close>

lemma overall_sum_upper:
  assumes "A \<le> 10" and "B \<le> 10" and "C \<le> 5" and "D \<le> 10"
  shows "round_half_up (65 + A + B + C + D) \<le> 100"
  using assms by (intro round_half_up_le) simp

lemma overall_sum_lower:
  assumes "0 \<le> A" and "- 15 \<le> B" and "0 \<le> C" and "0 \<le> D"
  shows "50 \<le> round_half_up (65 + A + B + C + D)"
  using assms by (intro round_half_up_ge) simp

lemma calculateOverallConfidence_upper: "calculateOverallConfidence ags tls rels txt \<le> 100"
  unfolding calculateOverallConfidence_sum
  by (rule overall_sum_upper) simp_all

lemma calculateOverallConfidence_lower:
  assumes "\<And>as a. ags = Some as \<Longrightarrow> a \<in> set as \<Longrightarrow> 0 \<le> or_zero (confidence a)"
  shows "50 \<le> calculateOverallConfidence ags tls rels txt"
proof -
  have len: "0 \<le> min 10 (rat_of_nat (length txt) / 200)" by simp
  have agent_term: "- 15 \<le> (if non_empty ags
          then min 10 (mean (map (\<lambda>a. or_zero (confidence a))
                  (case ags of Some as \<Rightarrow> as | None \<Rightarrow> [])) / 10)
          else - 15)"
  proof (cases ags)
    case None
    then show ?thesis by (simp add: non_empty_def)
  next
    case (Some as)
    have "0 \<le> mean (map (\<lambda>a. or_zero (confidence a)) as)"
      by (rule mean_nonneg) (auto dest: assms [OF Some])
    with Some show ?thesis by simp
  qed
  show ?thesis
    unfolding calculateOverallConfidence_sum
    by (rule overall_sum_lower [OF len agent_term]) simp_all
qed

lemma assessCompleteness_range:
  "50 \<le> assessCompleteness ags tls rels pat \<and> assessCompleteness ags tls rels pat \<le> 100"
  unfolding assessCompleteness_def Let_def
  by (intro conjI round_half_up_ge round_half_up_le) simp_all

lemma valid_fraction_range:
  assumes "v \<le> t" and "0 < t"
  shows "0 \<le> round_half_up (20 * (of_nat v / of_nat t))
       \<and> round_half_up (20 * (of_nat v / of_nat t)) \<le> 20"
proof -
  from assms have "(of_nat v :: rat) / of_nat t \<le> 1" by simp
  then have "20 * (of_nat v / of_nat t) \<le> (of_int 20 :: rat)" by simp
  moreover have "(of_int 0 :: rat) \<le> 20 * (of_nat v / of_nat t)" by simp
  ultimately show ?thesis by (intro conjI round_half_up_ge round_half_up_le)
qed

lemma consistency_with_relations:
  assumes "v \<le> t" and "0 < t"
  shows "70 \<le> round_half_up (of_int (70 + round_half_up (20 * (of_nat v / of_nat t))))
       \<and> round_half_up (of_int (70 + round_half_up (20 * (of_nat v / of_nat t)))) \<le> 90"
  using valid_fraction_range [OF assms] unfolding round_half_up_of_int by simp

lemma assessConsistency_range:
  "70 \<le> assessConsistency ags rels \<and> assessConsistency ags rels \<le> 90"
proof (cases "\<exists>rs as. rels = Some rs \<and> ags = Some as \<and> rs \<noteq> []")
  case True
  then obtain rs as where eq: "rels = Some rs" "ags = Some as" and ne: "rs \<noteq> []" by auto
  let ?v = "length (filter (\<lambda>rel.
      names_has (map (\<lambda>a. own_prop (entity a) ''name'') as) (own_prop (entity rel) ''source'')
      \<and> names_has (map (\<lambda>a. own_prop (entity a) ''name'') as) (own_prop (entity rel) ''target''))
      rs)"
  have "?v \<le> length rs" by (rule length_filter_le)
  moreover from ne have "0 < length rs" by simp
  ultimately have range: "70 \<le> round_half_up (of_int (70
          + round_half_up (20 * (of_nat ?v / of_nat (length rs)))))
       \<and> round_half_up (of_int (70
          + round_half_up (20 * (of_nat ?v / of_nat (length rs))))) \<le> 90"
    by (rule consistency_with_relations)
  have "assessConsistency ags rels = round_half_up (of_int (70
          + round_half_up (20 * (of_nat ?v / of_nat (length rs)))))"
    unfolding assessConsistency_def eq Let_def using ne by simp
  with range show ?thesis by simp
next
  case False
  have "round_half_up (rat_of_int 70) = 70" by (rule round_half_up_of_int)
  with False show ?thesis
    by (cases rels; cases ags) (auto simp: assessConsistency_def Let_def)
qed

lemma assessClarity_range: "60 \<le> assessClarity txt \<and> assessClarity txt \<le> 95"
proof -
  define m where "m = min 10 (rat_of_nat (length txt) / 300)"
  have m: "0 \<le> m" "m \<le> 10" by (simp_all add: m_def)
  define S where "S = (if str_includes txt ''example'' \<or> str_includes txt ''for instance''
       then (if hasSections txt then 60 + 15 else 60) + m + 10
       else (if hasSections txt then 60 + 15 else 60) + m)"
  have "assessClarity txt = round_half_up S"
    by (simp add: assessClarity_def Let_def S_def m_def)
  moreover from m have "of_int 60 \<le> S" and "S \<le> of_int 95"
    by (simp_all add: S_def)
  ultimately show ?thesis
    by (simp add: round_half_up_ge round_half_up_le)
qed

text \<open>With an agent whose description is an object carrying a negative \<open>length\<close>, the
  overall confidence is negative.\<close>

theorem negative_overall_confidence:
  "system_metrics no_coercion negative_length_components '''' =
     Inr \<lparr>overall = - 428, completeness = 65, consistency = 70, clarity = 60\<rparr>"
  by code_simp

text \<open>
  Claim C10, amended.  For every components object in which the description of every
  agent is a string or absent, and every source text on which the scorer returns: the
  overall score lies in \<open>[50, 100]\<close> before the cap and in \<open>[50, 95]\<close> after it,
  completeness lies in \<open>[50, 100]\<close>, consistency in \<open>[70, 90]\<close> and clarity in
  \<open>[60, 95]\<close>.
\<close>

theorem system_metrics_ranges:
  assumes "calculateConfidenceScores coerce components sourceText = Inr r"
    and "\<forall>a \<in> set (entries components ''agents''). string_or_absent (own_prop a ''description'')"
  shows "50 \<le> pre_cap_overall r sourceText \<and> pre_cap_overall r sourceText \<le> 100
    \<and> 50 \<le> overall (systemConfidence r) \<and> overall (systemConfidence r) \<le> 95
    \<and> 50 \<le> completeness (systemConfidence r) \<and> completeness (systemConfidence r) \<le> 100
    \<and> 70 \<le> consistency (systemConfidence r) \<and> consistency (systemConfidence r) \<le> 90
    \<and> 60 \<le> clarity (systemConfidence r) \<and> clarity (systemConfidence r) \<le> 95"
proof -
  note parts = calculateConfidenceScores_Inr [OF assms(1)]
  have nonneg: "0 \<le> or_zero (confidence s)" if as: "result_agents r = Some as" and s: "s \<in> set as"
    for as s
  proof -
    from score_all_Inr [OF parts(1)] as obtain ys
      where ys: "own_prop components ''agents'' = Some (JArr ys)"
        and all: "list_all2 (\<lambda>x y. score_agent coerce sourceText x = Inr y) ys as"
      by auto
    from s obtain i where i: "i < length as" "as ! i = s"
      by (auto simp: in_set_conv_nth)
    from all i have "length ys = length as"
      and "score_agent coerce sourceText (ys ! i) = Inr s"
      by (auto simp: list_all2_conv_all_nth)
    with i obtain x where x: "x \<in> set ys" and sx: "score_agent coerce sourceText x = Inr s"
      by (metis nth_mem)
    from ys x assms(2) have "string_or_absent (own_prop x ''description'')"
      by (simp add: entries_def)
    moreover from sx have "agent_confidence coerce sourceText x = Inr (confidence s)"
      by (auto simp: score_agent_def split: sum.splits)
    ultimately obtain q where "confidence s = Fin q" and "70 \<le> q"
      using agent_confidence_range by blast
    then show ?thesis by simp
  qed
  have lo: "50 \<le> pre_cap_overall r sourceText"
    unfolding pre_cap_overall_def by (rule calculateOverallConfidence_lower) (rule nonneg)
  have hi: "pre_cap_overall r sourceText \<le> 100"
    unfolding pre_cap_overall_def by (rule calculateOverallConfidence_upper)
  from lo hi show ?thesis
    using assessCompleteness_range [of "result_agents r" "result_tools r"
        "result_relationships r" "result_orchestrationPattern r"]
      assessConsistency_range [of "result_agents r" "result_relationships r"]
      assessClarity_range [of sourceText]
    by (simp add: parts(5))
qed

theorem system_metrics_ranges_witness:
  "calculateConfidenceScores no_coercion sample_components sample_text = Inr sample_scored
   \<and> list_all (\<lambda>a. string_or_absent (own_prop a ''description''))
        (entries sample_components ''agents'')
   \<and> pre_cap_overall sample_scored sample_text = 79
   \<and> systemConfidence sample_scored =
       \<lparr>overall = 79, completeness = 85, consistency = 70, clarity = 60\<rparr>"
proof -
  have typed: "\<forall>a \<in> set (entries sample_components ''agents'').
      string_or_absent (own_prop a ''description'')"
    by (simp add: entries_def sample_components_def sample_agent_def string_or_absent_def)
  note range = system_metrics_ranges [OF sample_components_scored typed]
  have "pre_cap_overall sample_scored sample_text = 79"
    by code_simp
  moreover have "systemConfidence sample_scored =
      \<lparr>overall = 79, completeness = 85, consistency = 70, clarity = 60\<rparr>"
    by (simp add: sample_scored_def)
  ultimately show ?thesis
    using range typed sample_components_scored by (simp add: list_all_iff)
qed

text \<open>When every agent's description is a string or absent, every confidence the scorer
  assigns to an agent is a number, so that their mean is defined.\<close>

lemma typed_agents_numeric_confidence:
  assumes "calculateConfidenceScores coerce components sourceText = Inr r"
    and "\<forall>a \<in> set (entries components ''agents''). string_or_absent (own_prop a ''description'')"
  shows "\<exists>agentConfidences. map confidence (scored_agents r) = map Fin agentConfidences"
proof -
  note parts = calculateConfidenceScores_Inr [OF assms(1)]
  have "\<exists>q. confidence s = Fin q" if s: "s \<in> set (scored_agents r)" for s
  proof -
    from s obtain as where as: "result_agents r = Some as" and sa: "s \<in> set as"
      by (cases "result_agents r") (auto simp: scored_agents_def)
    from score_all_Inr [OF parts(1)] as obtain ys
      where ys: "own_prop components ''agents'' = Some (JArr ys)"
        and all: "list_all2 (\<lambda>x y. score_agent coerce sourceText x = Inr y) ys as"
      by auto
    from sa obtain i where i: "i < length as" "as ! i = s"
      by (auto simp: in_set_conv_nth)
    from all i have "length ys = length as"
      and sx: "score_agent coerce sourceText (ys ! i) = Inr s"
      by (auto simp: list_all2_conv_all_nth)
    with i have "ys ! i \<in> set ys" by simp
    with ys assms(2) have "string_or_absent (own_prop (ys ! i) ''description'')"
      by (simp add: entries_def)
    moreover from sx have "agent_confidence coerce sourceText (ys ! i) = Inr (confidence s)"
      by (auto simp: score_agent_def split: sum.splits)
    ultimately show ?thesis using agent_confidence_range by blast
  qed
  then have "\<forall>c \<in> set (map confidence (scored_agents r)). \<exists>q. c = Fin q" by auto
  then show ?thesis by (simp only: ex_map_conv)
qed

section \<open>Properties of the entity matcher\<close>















text \<open>When scores may be \<open>NaN\<close>, the loop passes over them: the best score for an
  expected entity is the greatest of \<open>0\<close> and the scores that are numbers.\<close>

lemma best_match_skips_NaN:
  assumes "JNull \<notin> set as" and "e \<noteq> JNull"
  shows "best_match as e b = Inr (Max (insert b {q. \<exists>a \<in> set as. match_score a e = Fin q}))"
  using assms(1)
proof (induction as arbitrary: b)
  case Nil
  show ?case by simp
next
  case (Cons a as)
  let ?S = "\<lambda>xs. {q. \<exists>a \<in> set xs. match_score a e = Fin q}"
  have fin: "finite (?S xs)" for xs
  proof -
    have "?S xs \<subseteq> (\<lambda>a. case match_score a e of Fin q \<Rightarrow> q | NaN \<Rightarrow> 0) ` set xs"
      by (force simp: image_iff)
    then show ?thesis by (rule finite_subset) simp
  qed
  from Cons.prems have a: "a \<noteq> JNull" and as: "JNull \<notin> set as" by auto
  show ?case
  proof (cases "match_score a e")
    case NaN
    then have "?S (a # as) = ?S as" by auto
    moreover from NaN a assms(2) have "best_match (a # as) e b = best_match as e b"
      by (simp add: calculateEntityMatchScore_def)
    ultimately show ?thesis using Cons.IH [OF as, of b] by simp
  next
    case (Fin q)
    then have S: "?S (a # as) = insert q (?S as)" by auto
    from Fin a assms(2) have "best_match (a # as) e b = best_match as e (max b q)"
      by (simp add: calculateEntityMatchScore_def max_def)
    also have "\<dots> = Inr (Max (insert (max b q) (?S as)))" by (rule Cons.IH [OF as])
    also have "Max (insert (max b q) (?S as)) = Max (insert b (insert q (?S as)))"
      using fin [of as] by (cases "?S as = {}") (simp_all add: max.assoc)
    finally show ?thesis unfolding S .
  qed
qed

text \<open>Two entities that both hold an empty array under the same key: the overlap is
  \<open>0 / 0\<close>, the score is \<open>NaN\<close>, and the accuracy of a list against itself is \<open>0\<close>.\<close>

lemma empty_arrays_score_NaN:
  "calculateEntityMatchScore tagless tagless = Inr NaN"
  "calculateEntityAccuracy [tagless] [tagless] = Inr 0"
  by code_simp+

section \<open>Failures of the scorer and of the matcher\<close>

lemma is_string_obtain:
  assumes "is_string x"
  obtains s where "x = Some (JStr s)"
  using assms by (auto simp: is_string_def split: option.splits json.splits)

lemma string_or_absent_obtain:
  assumes "string_or_absent x"
  obtains d where "x = map_option JStr d"
proof (cases x)
  case None
  then have "x = map_option JStr None" by simp
  then show ?thesis by (rule that)
next
  case (Some v)
  with assms obtain s where "v = JStr s"
    by (cases v) (simp_all add: string_or_absent_def)
  with Some have "x = map_option JStr (Some s)" by simp
  then show ?thesis by (rule that)
qed

lemma score_agent_succeeds:
  assumes "a \<noteq> JNull" and "typed_agent a"
  shows "\<exists>s. score_agent coerce txt a = Inr s"
proof -
  from assms(2) obtain n where n: "own_prop a ''name'' = Some (JStr n)"
    by (auto simp: typed_agent_def elim: is_string_obtain)
  from assms(2) obtain d where d: "own_prop a ''description'' = map_option JStr d"
    by (auto simp: typed_agent_def elim: string_or_absent_obtain)
  from assms(2) length_exceeds_typed [of "own_prop a ''role''" coerce 10]
  obtain b where b: "length_exceeds coerce (own_prop a ''role'') 10 = Inr b"
    by (auto simp: typed_agent_def)
  from assms(1) n b show ?thesis
    by (simp add: score_agent_def agent_confidence_def detailScore_string [OF d]
        mention_count_occurrences Let_def)
qed

lemma score_tool_succeeds:
  assumes "t \<noteq> JNull" and "typed_tool t"
  shows "\<exists>s. score_tool coerce txt t = Inr s"
proof -
  from assms(2) obtain n where n: "own_prop t ''name'' = Some (JStr n)"
    by (auto simp: typed_tool_def elim: is_string_obtain)
  from assms(2) length_exceeds_typed [of "own_prop t ''purpose''" coerce 15]
  obtain b where b: "length_exceeds coerce (own_prop t ''purpose'') 15 = Inr b"
    by (auto simp: typed_tool_def)
  from assms(1) n b show ?thesis
    by (simp add: score_tool_def tool_confidence_def Let_def)
qed

lemma score_relationship_succeeds:
  assumes "rel \<noteq> JNull" and "typed_relationship rel"
  shows "\<exists>s. score_relationship coerce rel = Inr s"
proof -
  from assms(2) length_exceeds_typed [of "own_prop rel ''description''" coerce 20]
  obtain b where "length_exceeds coerce (own_prop rel ''description'') 20 = Inr b"
    by (auto simp: typed_relationship_def)
  with assms(1) show ?thesis
    by (simp add: score_relationship_def relationship_confidence_def Let_def)
qed

lemma score_all_succeeds:
  assumes "valid_entities typed xs"
    and "\<And>y. y \<noteq> JNull \<Longrightarrow> typed y \<Longrightarrow> \<exists>s. f y = Inr s"
  shows "\<exists>res. score_all f xs = Inr res"
proof (cases "\<exists>ys. xs = Some (JArr ys)")
  case True
  then obtain ys where ys: "xs = Some (JArr ys)" ..
  with assms(1) have "\<And>y. y \<in> set ys \<Longrightarrow> \<exists>s. f y = Inr s"
    by (auto simp: valid_entities_def list_all_iff intro: assms(2))
  then obtain zs where "mapE f ys = Inr zs" using mapE_succeeds by blast
  with ys show ?thesis by (simp add: score_all_def)
next
  case False
  with assms(1) have "\<not> truthy_opt xs"
    by (auto simp: valid_entities_def split: option.splits json.splits)
  then show ?thesis by (simp add: score_all_def)
qed

text \<open>An agent without a name makes the scorer throw.\<close>

theorem scorer_throws_on_nameless_agent:
  "calculateConfidenceScores no_coercion nameless_agent_components '''' = Inl TypeError"
  by code_simp

text \<open>
  Claim C9, amended.  The scorer returns a result for every source text and every
  components object whose \<open>agents\<close>, \<open>tools\<close> and \<open>relationships\<close> are each falsy or an
  array without \<open>null\<close> entries, in which every agent and every tool has a string name and
  every description, role and purpose is a string where present; lists may be empty and
  relationships may have no keys.  The matcher returns a result for any two entities that
  are not \<open>null\<close>, and the accuracy for any two lists without a \<open>null\<close> entry.
\<close>

theorem scorer_and_matcher_return:
  "(valid_components components \<longrightarrow>
      (\<exists>r. calculateConfidenceScores coerce components sourceText = Inr r))
   \<and> (actual \<noteq> JNull \<and> expected \<noteq> JNull \<longrightarrow>
      (\<exists>s. calculateEntityMatchScore actual expected = Inr s))
   \<and> (JNull \<notin> set actuals \<and> JNull \<notin> set expecteds \<longrightarrow>
      (\<exists>q. calculateEntityAccuracy actuals expecteds = Inr q))"
proof (intro conjI impI)
  assume v: "valid_components components"
  from v obtain ags where ags:
      "score_all (score_agent coerce sourceText) (own_prop components ''agents'') = Inr ags"
    using score_all_succeeds [of typed_agent _ "score_agent coerce sourceText"]
      score_agent_succeeds
    by (fastforce simp: valid_components_def)
  from v obtain tls where tls:
      "score_all (score_tool coerce sourceText) (own_prop components ''tools'') = Inr tls"
    using score_all_succeeds [of typed_tool _ "score_tool coerce sourceText"]
      score_tool_succeeds
    by (fastforce simp: valid_components_def)
  from v obtain rels where rels:
      "score_all (score_relationship coerce) (own_prop components ''relationships'') = Inr rels"
    using score_all_succeeds [of typed_relationship _ "score_relationship coerce"]
      score_relationship_succeeds
    by (fastforce simp: valid_components_def)
  from ags tls rels
  show "\<exists>r. calculateConfidenceScores coerce components sourceText = Inr r"
    by (simp add: calculateConfidenceScores_def Let_def)
next
  assume "actual \<noteq> JNull \<and> expected \<noteq> JNull"
  then show "\<exists>s. calculateEntityMatchScore actual expected = Inr s"
    by (simp add: calculateEntityMatchScore_def)
next
  assume n: "JNull \<notin> set actuals \<and> JNull \<notin> set expecteds"
  have "\<exists>c'. sum_best actuals es c = Inr c'" if "JNull \<notin> set es" for es c
    using that
  proof (induction es arbitrary: c)
    case Nil
    show ?case by simp
  next
    case (Cons e es)
    then have "e \<noteq> JNull" by auto
    with n have "\<exists>b. best_match actuals e 0 = Inr b"
      using best_match_skips_NaN [of actuals e 0] by simp
    with Cons show ?case by auto
  qed
  from this [of expecteds 0] n obtain c' where "sum_best actuals expecteds 0 = Inr c'"
    by auto
  then show "\<exists>q. calculateEntityAccuracy actuals expecteds = Inr q"
    by (simp add: calculateEntityAccuracy_def)
qed

lemma sample_components_valid: "valid_components sample_components"
  by (simp add: valid_components_def valid_entities_def sample_components_def
      sample_agent_def sample_tool_def typed_agent_def typed_tool_def is_string_def
      string_or_absent_def)

theorem scorer_and_matcher_return_witness:
  "valid_components sample_components
   \<and> (\<exists>r. calculateConfidenceScores no_coercion sample_components sample_text = Inr r)
   \<and> (\<exists>s. calculateEntityMatchScore (JObj []) (JObj []) = Inr s)
   \<and> (\<exists>q. calculateEntityAccuracy [JObj []] [JObj [], tagless] = Inr q)"
proof -
  have "JObj [] \<noteq> JNull \<and> JObj [] \<noteq> JNull" by simp
  moreover have "JNull \<notin> set [JObj []] \<and> JNull \<notin> set [JObj [], tagless]"
    by (simp add: tagless_def)
  ultimately show ?thesis
    using scorer_and_matcher_return [of sample_components no_coercion sample_text
        "JObj []" "JObj []" "[JObj []]" "[JObj [], tagless]"] sample_components_valid
    by blast
qed

section \<open>Properties of the extraction\<close>

text \<open>The first two steps of \<open>generateSystemDiagram\<close>: a trimmed text in braces is the
  candidate as a whole; otherwise a fenced block that is not empty gives the candidate.\<close>

lemma bare_json_taken_whole:
  assumes "prefix ''{'' (trim txt)" and "suffix ''}'' (trim txt)"
  shows "diagram_json_text txt = Inr (trim txt)"
  using assms by (simp add: diagram_json_text_def)

lemma fenced_block_taken:
  assumes "\<not> (prefix ''{'' (trim txt) \<and> suffix ''}'' (trim txt))"
    and "code_block txt = Some block" and "block \<noteq> []"
  shows "diagram_json_text txt = Inr (trim block)"
  using assms by (auto simp: diagram_json_text_def)

text \<open>The inline step searches lazily: its match holds exactly one closing brace, at its
  end.\<close>

lemma lazy_braces_one_closing_brace:
  assumes "lazy_braces s = Some m"
  shows "\<exists>body. m = CHR ''{'' # body @ ''}'' \<and> CHR ''}'' \<notin> set body"
proof -
  from assms obtain b rest where d: "dropWhile (\<lambda>c. c \<noteq> CHR ''{'') s = b # rest"
    and m: "m = b # takeWhile (\<lambda>c. c \<noteq> CHR ''}'') rest @ ''}''"
    by (auto simp: lazy_braces_def split: list.splits if_splits)
  from d have "b = CHR ''{''" using hd_dropWhile [of "\<lambda>c. c \<noteq> CHR ''{''" s] by simp
  moreover have "CHR ''}'' \<notin> set (takeWhile (\<lambda>c. c \<noteq> CHR ''}'') rest)"
    by (auto dest: set_takeWhileD)
  ultimately show ?thesis using m by blast
qed

text \<open>The fallback search of a candidate that the inline step produced returns that same
  candidate.\<close>

lemma lazy_braces_idempotent:
  assumes "lazy_braces s = Some m"
  shows "lazy_braces m = Some m"
proof -
  from lazy_braces_one_closing_brace [OF assms] obtain body
    where m: "m = CHR ''{'' # body @ ''}''" and body: "CHR ''}'' \<notin> set body" by blast
  from body have "takeWhile (\<lambda>c. c \<noteq> CHR ''}'') (body @ ''}'') = body"
    by (simp add: takeWhile_append)
  with m show ?thesis by (simp add: lazy_braces_def)
qed

lemma inline_candidate_fallback_useless:
  assumes "lazy_braces txt = Some m" and "parse m = None"
  shows "parse_with_fallback parse m = Inl MalformedJson"
  using assms lazy_braces_idempotent [OF assms(1)] by (simp add: parse_with_fallback_def)

text \<open>
  Claim C1 at the response
  \<open>Here is the diagram: {"nodes":[{"id":"a"}],"edges":[]} Done.\<close>  The text is not in
  braces and holds no fence, so \<open>generateSystemDiagram\<close> takes the inline match, which runs
  from the first \<open>{\<close> to the first \<open>}\<close>: the candidate is \<open>{"nodes":[{"id":"a"}\<close>, not the
  span to the last \<open>}\<close>; the fallback search of the candidate returns the candidate again.
  On the same text \<open>/\{[\s\S]*\}/\<close> of \<open>processInitialDescription\<close> matches the whole
  object.
\<close>

theorem inline_candidate_ends_at_first_brace:
  "diagram_json_text prose_response = Inr prose_fragment
   \<and> lazy_braces prose_fragment = Some prose_fragment
   \<and> greedy_braces prose_response = Some prose_object
   \<and> initial_json_text prose_response = Inr prose_object"
  unfolding prose_response_def prose_fragment_def prose_object_def by code_simp

text \<open>Hence, with any parser that rejects the fragment, the extraction fails after the
  fallback, and the handling of the response ends with the basic diagram of the input
  agents.\<close>

lemma prose_response_not_extracted:
  assumes "parse prose_fragment = None"
  shows "extract_diagram_json parse prose_response = Inl MalformedJson"
    and "diagram_of_response parse prose_response inputAgents = fallback_diagram inputAgents"
proof -
  have c: "diagram_json_text prose_response = Inr prose_fragment"
    and l: "lazy_braces prose_fragment = Some prose_fragment"
    unfolding prose_response_def prose_fragment_def by code_simp+
  with assms show "extract_diagram_json parse prose_response = Inl MalformedJson"
    by (simp add: extract_diagram_json_def parse_with_fallback_def)
  then show "diagram_of_response parse prose_response inputAgents = fallback_diagram inputAgents"
    by (simp add: diagram_of_response_def)
qed

text \<open>The scenario of the vertices and links from its text: the text is in braces, so it is
  the candidate as a whole; given that the parser reads it as the value
  \<open>vertices_links_response\<close>, the handling of the response yields the normalised
  diagram of that value.\<close>

lemma vertices_links_text_whole: "diagram_json_text vertices_links_text = Inr vertices_links_text"
  unfolding vertices_links_text_def by code_simp

lemma vertices_links_from_text:
  assumes "parse vertices_links_text = Some vertices_links_response"
  shows "diagram_of_response parse vertices_links_text inputAgents =
     \<lparr>nodes =
        [\<lparr>nid = JStr ''n1'', nlabel = JStr ''X'', ntype = JStr ''agent'', nrole = None,
          ncategory = None, ndescription = None, nsize = Some (JNum 1),
          nstyle = Some (NodeStyleBuilt None None)\<rparr>],
      edges = [], layout = JStr ''dagre'', groups = None\<rparr>"
proof -
  have "normalize_diagram vertices_links_response inputAgents = Inr
     \<lparr>nodes =
        [\<lparr>nid = JStr ''n1'', nlabel = JStr ''X'', ntype = JStr ''agent'', nrole = None,
          ncategory = None, ndescription = None, nsize = Some (JNum 1),
          nstyle = Some (NodeStyleBuilt None None)\<rparr>],
      edges = [], layout = JStr ''dagre'', groups = None\<rparr>"
    by (simp add: vertices_links_response_def normalize_diagram_def normalize_nodes_def
      normalize_edges_def normalize_groups_def normalize_layout_def normalize_node_def
      normalize_edge_def js_or_def or_else_def edge_exists_def set_has_def digit_char_def
      showNat.simps)
  with assms show ?thesis
    by (simp add: diagram_of_response_def extract_diagram_json_def vertices_links_text_whole
        parse_with_fallback_def)
qed

text \<open>Whatever the response and the parser, the diagram that the handling of a response
  returns has no edge to or from an unknown node.\<close>

lemma diagram_of_response_edges_reference_nodes:
  assumes "e \<in> set (edges (diagram_of_response parse txt inputAgents))"
  shows "source e \<in> set (map nid (nodes (diagram_of_response parse txt inputAgents)))
       \<and> target e \<in> set (map nid (nodes (diagram_of_response parse txt inputAgents)))"
proof (cases "extract_diagram_json parse txt")
  case (Inl err)
  with assms show ?thesis by (simp add: diagram_of_response_def fallback_diagram_def)
next
  case (Inr j)
  show ?thesis
  proof (cases "normalize_diagram j inputAgents")
    case (Inl err)
    with Inr assms show ?thesis by (simp add: diagram_of_response_def fallback_diagram_def)
  next
    case d: (Inr d)
    with Inr have eq: "diagram_of_response parse txt inputAgents = d"
      by (simp add: diagram_of_response_def)
    from d obtain ns es edgeData
      where es: "normalize_edges edgeData ns = Inr es" and nd: "nodes d = ns" "edges d = es"
      by (auto simp: normalize_diagram_def Let_def split: if_splits sum.splits)
    from normalize_edges_kept [OF es] assms eq nd
    have "edge_exists (map nid (nodes d)) e" by simp
    with eq show ?thesis by (simp add: edge_exists_def set_has_def)
  qed
qed

end
